theory Spec2Isabelle
  imports Main "HOL-Library.Sublist" "HOL-Library.Word"
begin

unbundle bit_operations_syntax

section \<open>Go string primitives used by ferri\<close>

text \<open>
  A Go string is a sequence of bytes; \<^typ>\<open>string\<close> (a list of 8-bit characters) is used
  for it. The functions below follow the package \<open>strings\<close> of the Go standard library, each
  restricted to the way ferri calls it.
\<close>

text \<open>\<open>strings.HasPrefix(s, prefix)\<close>.\<close>

fun HasPrefix :: "string \<Rightarrow> string \<Rightarrow> bool" where
  "HasPrefix s [] = True"
| "HasPrefix [] (p # ps) = False"
| "HasPrefix (c # cs) (p # ps) = (c = p \<and> HasPrefix cs ps)"

text \<open>\<open>strings.TrimPrefix(s, prefix)\<close>: \<open>s\<close> without the prefix when it has it, \<open>s\<close> otherwise.\<close>

definition TrimPrefix :: "string \<Rightarrow> string \<Rightarrow> string" where
  "TrimPrefix s p = (if HasPrefix s p then drop (length p) s else s)"

text \<open>\<open>strings.Contains(s, substr)\<close>, that is \<open>strings.Index(s, substr) >= 0\<close>: some position
  of \<open>s\<close> starts with \<open>substr\<close>.\<close>

fun Contains :: "string \<Rightarrow> string \<Rightarrow> bool" where
  "Contains [] sub = (sub = [])"
| "Contains (c # cs) sub = (HasPrefix (c # cs) sub \<or> Contains cs sub)"

text \<open>\<open>strings.Count(s, substr)\<close> for a one-byte \<open>substr\<close> (the only way ferri calls it, with
  \<open>"."\<close>): the library's own fast path counts the bytes equal to it.\<close>

fun Count_byte :: "string \<Rightarrow> char \<Rightarrow> nat" where
  "Count_byte [] b = 0"
| "Count_byte (c # cs) b = (if c = b then Suc (Count_byte cs b) else Count_byte cs b)"

text \<open>\<open>strings.Split(s, sep)\<close> for a one-byte \<open>sep\<close> (ferri splits on \<open>"."\<close>): the pieces
  between the separators; the empty string gives one empty piece.\<close>

fun Split_byte :: "string \<Rightarrow> char \<Rightarrow> string list" where
  "Split_byte [] b = [[]]"
| "Split_byte (c # cs) b =
     (if c = b then [] # Split_byte cs b
      else (case Split_byte cs b of
              [] \<Rightarrow> [[c]]
            | p # ps \<Rightarrow> (c # p) # ps))"

section \<open>Target classification\<close>

text \<open>
  The \<open>switch\<close> at the head of \<open>GetOrCreateTarget\<close> (processors/target_processor.go) that
  assigns the local \<open>targetType\<close>. The cases are tried in the order written.
\<close>

definition targetType :: "string \<Rightarrow> string" where
  "targetType targetURL =
     (if Count_byte targetURL (CHR ''.'') = 1 \<and> \<not> Contains targetURL ''/''
           \<and> \<not> Contains targetURL '':'' then ''domain''
      else if Count_byte targetURL (CHR ''.'') > 1 \<and> \<not> Contains targetURL ''/''
           \<and> \<not> Contains targetURL '':'' then ''subdomain''
      else if Contains targetURL ''://'' then ''url''
      else if Contains targetURL '':'' then ''ip_port''
      else ''unknown'')"

section \<open>Organisation name\<close>

text \<open>
  The regular expressions of ferri are \<open>(?i)^(https?://)?([^/]+)\<close> (\<open>ExtractDomain\<close>) and
  \<open>(?i)https?://([^/]+)\<close> (\<open>main\<close>). Both are built from the same three pieces, matched at
  the start of a string; each piece returns the text left after it, or \<open>None\<close>.

  \<open>(?i)\<close> makes the letters match in either case. Go folds case by \<open>unicode.SimpleFold\<close>,
  whose orbit of \<open>s\<close> also holds U+017F (LATIN SMALL LETTER LONG S, the bytes C5 BF in
  UTF-8); \<open>h\<close>, \<open>t\<close> and \<open>p\<close> have no third form, and \<open>:\<close> and \<open>/\<close> have no case.
\<close>

fun scheme_http :: "string \<Rightarrow> string option" where
  "scheme_http (a # b # c # d # rest) =
     (if (a = CHR ''h'' \<or> a = CHR ''H'') \<and> (b = CHR ''t'' \<or> b = CHR ''T'')
         \<and> (c = CHR ''t'' \<or> c = CHR ''T'') \<and> (d = CHR ''p'' \<or> d = CHR ''P'')
      then Some rest else None)"
| "scheme_http _ = None"

definition scheme_s :: "string \<Rightarrow> string option" where
  "scheme_s r =
     (if HasPrefix r ''s'' \<or> HasPrefix r ''S'' then Some (drop 1 r)
      else if HasPrefix r [CHR 0xC5, CHR 0xBF] then Some (drop 2 r)
      else None)"

definition scheme_sep :: "string \<Rightarrow> string option" where
  "scheme_sep r = (if HasPrefix r ''://'' then Some (drop 3 r) else None)"

text \<open>\<open>https?://\<close> at the start of the string. The \<open>s?\<close> is greedy: the branch with the
  \<open>s\<close> is tried first, the one without it when that fails.\<close>

definition match_scheme :: "string \<Rightarrow> string option" where
  "match_scheme s =
     (case scheme_http s of
        None \<Rightarrow> None
      | Some r \<Rightarrow>
          (case scheme_s r of
             None \<Rightarrow> scheme_sep r
           | Some r' \<Rightarrow>
               (case scheme_sep r' of
                  Some r'' \<Rightarrow> Some r''
                | None \<Rightarrow> scheme_sep r)))"

text \<open>\<open>[^/]+\<close> is greedy: it takes every byte up to the first slash, and fails on none.\<close>

definition host_chars :: "string \<Rightarrow> string" where
  "host_chars s = takeWhile (\<lambda>c. c \<noteq> CHR ''/'') s"

text \<open>
  \<open>re.FindStringSubmatch(input)\<close> for \<open>(?i)^(https?://)?([^/]+)\<close>: the second group of the
  match, \<open>None\<close> when nothing matches. The optional group is greedy: the match with the
  scheme is preferred, and the match without it is taken when no host byte follows the
  scheme.
\<close>

definition anchored_host :: "string \<Rightarrow> string option" where
  "anchored_host input =
     (let bare = (if host_chars input \<noteq> [] then Some (host_chars input) else None) in
      case match_scheme input of
        None \<Rightarrow> bare
      | Some r \<Rightarrow> if host_chars r \<noteq> [] then Some (host_chars r) else bare)"


text \<open>The five assignments \<open>domain = strings.TrimPrefix(domain, ...)\<close> of \<open>ExtractDomain\<close>,
  each on the result of the one before.\<close>

definition trim_prefixes :: "string \<Rightarrow> string" where
  "trim_prefixes domain =
     (let domain = TrimPrefix domain ''www.'';
          domain = TrimPrefix domain ''api.'';
          domain = TrimPrefix domain ''app.'';
          domain = TrimPrefix domain ''dev.'';
          domain = TrimPrefix domain ''test.''
      in domain)"

text \<open>\<open>ExtractDomain\<close> (processors/target_processor.go; \<open>extractDomain\<close> of ferri.go is the
  same text).\<close>

definition ExtractDomain :: "string \<Rightarrow> string" where
  "ExtractDomain input =
     (case anchored_host input of
        None \<Rightarrow> input
      | Some host \<Rightarrow>
          (let domain = trim_prefixes host;
               parts = Split_byte domain (CHR ''.'')
           in if length parts \<ge> 2 then hd parts else domain))"

text \<open>
  \<open>re.FindStringSubmatch(firstTarget)\<close> for the unanchored \<open>(?i)https?://([^/]+)\<close> of \<open>main\<close>:
  the first group of the leftmost match.
\<close>

fun url_host :: "string \<Rightarrow> string option" where
  "url_host [] = None"
| "url_host (c # cs) =
     (case match_scheme (c # cs) of
        None \<Rightarrow> url_host cs
      | Some r \<Rightarrow> if host_chars r \<noteq> [] then Some (host_chars r) else url_host cs)"

text \<open>The \<open>domain\<close> that \<open>main\<close> derives from the first target and hands to
  \<open>GetOrCreateProgram\<close>.\<close>

definition main_domain :: "string \<Rightarrow> string" where
  "main_domain firstTarget =
     (if Contains firstTarget ''://'' then
        (case url_host firstTarget of Some h \<Rightarrow> h | None \<Rightarrow> firstTarget)
      else if Contains firstTarget ''.'' then firstTarget
      else firstTarget)"

text \<open>The scope pattern of a new program: \<open>fmt.Sprintf("*.%s", strings.TrimPrefix(domain,
  "www."))\<close> in \<open>GetOrCreateProgram\<close>.\<close>

definition scope_pattern :: "string \<Rightarrow> string" where
  "scope_pattern domain = ''*.'' @ TrimPrefix domain ''www.''"

section \<open>Trimming white space\<close>

text \<open>
  \<open>strings.TrimSpace\<close> removes the leading and the trailing runes for which
  \<open>unicode.IsSpace\<close> holds: U+0009 to U+000D, U+0020, U+0085, U+00A0, U+1680, U+2000 to
  U+200A, U+2028, U+2029, U+202F, U+205F and U+3000. On the bytes of a string these are the
  UTF-8 encodings below; a byte sequence that is not one of them decodes to another rune or
  to \<open>RuneError\<close>, which is not a space.
\<close>

definition space_runes :: "string list" where
  "space_runes =
     [[CHR 0x09], [CHR 0x0A], [CHR 0x0B], [CHR 0x0C], [CHR 0x0D], [CHR 0x20],
      [CHR 0xC2, CHR 0x85], [CHR 0xC2, CHR 0xA0],
      [CHR 0xE1, CHR 0x9A, CHR 0x80],
      [CHR 0xE2, CHR 0x80, CHR 0x80], [CHR 0xE2, CHR 0x80, CHR 0x81],
      [CHR 0xE2, CHR 0x80, CHR 0x82], [CHR 0xE2, CHR 0x80, CHR 0x83],
      [CHR 0xE2, CHR 0x80, CHR 0x84], [CHR 0xE2, CHR 0x80, CHR 0x85],
      [CHR 0xE2, CHR 0x80, CHR 0x86], [CHR 0xE2, CHR 0x80, CHR 0x87],
      [CHR 0xE2, CHR 0x80, CHR 0x88], [CHR 0xE2, CHR 0x80, CHR 0x89],
      [CHR 0xE2, CHR 0x80, CHR 0x8A],
      [CHR 0xE2, CHR 0x80, CHR 0xA8], [CHR 0xE2, CHR 0x80, CHR 0xA9],
      [CHR 0xE2, CHR 0x80, CHR 0xAF],
      [CHR 0xE2, CHR 0x81, CHR 0x9F],
      [CHR 0xE3, CHR 0x80, CHR 0x80]]"

text \<open>Dropping, as long as there is one, a leading occurrence of one of the given byte
  sequences.\<close>

function trim_leading :: "string list \<Rightarrow> string \<Rightarrow> string" where
  "trim_leading encs s =
     (case find (\<lambda>e. e \<noteq> [] \<and> HasPrefix s e) encs of
        None \<Rightarrow> s
      | Some e \<Rightarrow> trim_leading encs (drop (length e) s))"
  by pat_completeness auto

termination
proof (relation "measure (\<lambda>(encs, s). length s)")
  show "wf (measure (\<lambda>(encs, s). length s))" by simp
next
  fix encs :: "string list" and s e :: string
  assume "find (\<lambda>e. e \<noteq> [] \<and> HasPrefix s e) encs = Some e"
  then have "e \<noteq> []" and "HasPrefix s e"
    by (auto simp: find_Some_iff)
  then have "s \<noteq> []"
    by (cases s; cases e) auto
  with \<open>e \<noteq> []\<close> show "((encs, drop (length e) s), (encs, s)) \<in> measure (\<lambda>(encs, s). length s)"
    by simp
qed

text \<open>\<open>TrimSpace\<close> trims the left end, then the right end.\<close>

definition TrimSpace :: "string \<Rightarrow> string" where
  "TrimSpace s = rev (trim_leading (map rev space_runes) (rev (trim_leading space_runes s)))"

section \<open>The store\<close>

text \<open>
  The rows of the tables \<open>programs\<close>, \<open>targets\<close> and \<open>recon_data\<close> of database/schema.go.
  A nullable column is an option; a timestamp is a tick of the clock below. The table
  \<open>findings\<close> is never read or written by ferri and is left out.
\<close>

record program_row =
  program_id :: int
  program_name :: string
  program_url :: "string option"
  program_scope :: "string option"
  program_out_of_scope :: "string option"
  program_bounty_notes :: "string option"
  program_created_at :: nat

record target_row =
  target_id :: int
  target_program_id :: int
  target_target :: string
  target_type :: "string option"
  target_source :: "string option"
  target_alive :: bool
  target_last_checked :: "nat option"
  target_tested :: bool
  target_tested_date :: "nat option"
  target_test_notes :: "string option"
  target_notes :: "string option"
  target_created_at :: nat

record recon_row =
  recon_id :: int
  recon_target_id :: int
  recon_tool :: string
  recon_text :: string
  recon_context :: "string option"
  recon_timestamp :: nat

text \<open>What \<open>database/sql\<close> reports: no row for a \<open>QueryRow\<close>, a rejected \<open>UNIQUE\<close> constraint, or
  any other failure of the driver (I/O, a locked file, a missing table).\<close>

datatype sql_error = ErrNoRows | ErrConstraint | ErrDriver

text \<open>The errors the Go functions return: the \<open>fmt.Errorf\<close> wrappers of the processors and of
  the package \<open>database\<close>.\<close>

datatype error =
    Failed_to_query_program sql_error
  | Failed_to_create_program sql_error
  | Failed_to_query_target sql_error
  | Failed_to_create_target sql_error
  | Failed_to_insert_recon_data sql_error
  | Failed_to_create_directory
  | Failed_to_create_database_file
  | Failed_to_open_database
  | Database_ping_failed
  | Failed_to_initialize_schema

text \<open>What \<open>main\<close>, the processors and \<open>EnsureDBExists\<close> print, on standard output or through
  \<open>log\<close>.\<close>

datatype message =
    No_input_provided
  | Ensuring_database_exists
  | Database_is_ready
  | Usage_hint
  | Auto_detected_tool string
  | Database_path
  | Reading_from_stdin
  | No_valid_targets
  | Found_targets nat
  | Extracted_domain string
  | Created_new_program string int
  | Using_existing_program string int
  | Error_with_target string error
  | Error_adding_recon_data string error
  | Target_done string
  | Completed nat nat int
  | Next_hint
  | No_targets_processed
  | Fatal error
  | Database_not_found
  | Initializing_schema
  | Database_created

text \<open>
  Another process working on the same database file can commit one of ferri's three
  inserts at any moment. A \<open>turn\<close> says what happens around one statement of this process:
  nothing, a failure of the driver, or a rival's insert committed just before it.
\<close>

datatype rival =
    Rival_program string string
  | Rival_target int string string string
  | Rival_recon int string string string

datatype turn = Calm | Fails | Rival rival

datatype file_state = Absent | No_schema | Schema_ready

text \<open>
  The world a run of ferri acts on: the database file and its tables, the
  \<open>AUTOINCREMENT\<close> counters (SQLite's \<open>sqlite_sequence\<close>), the clock, the turns still to
  come (one per statement; none left means calm), and what has been printed.
\<close>

record world =
  db_file :: file_state
  programs :: "program_row list"
  targets :: "target_row list"
  recon_data :: "recon_row list"
  last_program_id :: int
  last_target_id :: int
  last_recon_id :: int
  clock :: nat
  schedule :: "turn list"
  console :: "message list"

definition say :: "message \<Rightarrow> world \<Rightarrow> world" where
  "say m w = w\<lparr>console := console w @ [m]\<rparr>"

subsection \<open>Looking a row up by its natural key\<close>

text \<open>The row a \<open>SELECT\<close> by name, respectively by target and program, finds.\<close>

definition program_row_of :: "string \<Rightarrow> world \<Rightarrow> program_row option" where
  "program_row_of name w = find (\<lambda>r. program_name r = name) (programs w)"

definition target_row_of :: "int \<Rightarrow> string \<Rightarrow> world \<Rightarrow> target_row option" where
  "target_row_of pid target w =
     find (\<lambda>r. target_target r = target \<and> target_program_id r = pid) (targets w)"

subsection \<open>The three inserts as SQLite executes them\<close>

text \<open>\<open>INSERT INTO programs (name, scope)\<close>: rejected when the name is taken
  (\<open>name TEXT NOT NULL UNIQUE\<close>); the other columns take their defaults.\<close>

definition insert_program :: "string \<Rightarrow> string \<Rightarrow> world \<Rightarrow> sql_error + (int \<times> world)" where
  "insert_program name scope w =
     (if program_row_of name w \<noteq> None then Inl ErrConstraint
      else
        (let new_id = last_program_id w + 1;
             row = \<lparr>program_id = new_id, program_name = name, program_url = None,
                    program_scope = Some scope, program_out_of_scope = None,
                    program_bounty_notes = None, program_created_at = clock w\<rparr>
         in Inr (new_id, w\<lparr>programs := programs w @ [row], last_program_id := new_id\<rparr>)))"

text \<open>\<open>INSERT INTO targets (program_id, target, type, source, last_checked)\<close>: rejected when
  the pair is taken (\<open>UNIQUE(program_id, target)\<close>). SQLite does not enforce the foreign
  key unless asked to, and ferri does not ask.\<close>

definition insert_target ::
    "int \<Rightarrow> string \<Rightarrow> string \<Rightarrow> string \<Rightarrow> nat \<Rightarrow> world \<Rightarrow> sql_error + (int \<times> world)" where
  "insert_target pid target ty source checked w =
     (if target_row_of pid target w \<noteq> None then Inl ErrConstraint
      else
        (let new_id = last_target_id w + 1;
             row = \<lparr>target_id = new_id, target_program_id = pid, target_target = target,
                    target_type = Some ty, target_source = Some source, target_alive = False,
                    target_last_checked = Some checked, target_tested = False,
                    target_tested_date = None, target_test_notes = None,
                    target_notes = None, target_created_at = clock w\<rparr>
         in Inr (new_id, w\<lparr>targets := targets w @ [row], last_target_id := new_id\<rparr>)))"

text \<open>\<open>INSERT INTO recon_data (target_id, tool, data, context, timestamp)\<close>: no constraint
  can reject it.\<close>

definition insert_recon ::
    "int \<Rightarrow> string \<Rightarrow> string \<Rightarrow> string \<Rightarrow> nat \<Rightarrow> world \<Rightarrow> int \<times> world" where
  "insert_recon tid tool text ctx stamp w =
     (let new_id = last_recon_id w + 1;
          row = \<lparr>recon_id = new_id, recon_target_id = tid, recon_tool = tool,
                 recon_text = text, recon_context = Some ctx, recon_timestamp = stamp\<rparr>
      in (new_id, w\<lparr>recon_data := recon_data w @ [row], last_recon_id := new_id\<rparr>))"

subsection \<open>One statement of this process\<close>

fun run_rival :: "rival \<Rightarrow> world \<Rightarrow> world" where
  "run_rival (Rival_program name scope) w =
     (case insert_program name scope w of Inl e \<Rightarrow> w | Inr (i, w') \<Rightarrow> w')"
| "run_rival (Rival_target pid target ty source) w =
     (case insert_target pid target ty source (clock w) w of Inl e \<Rightarrow> w | Inr (i, w') \<Rightarrow> w')"
| "run_rival (Rival_recon tid tool text ctx) w =
     snd (insert_recon tid tool text ctx (clock w) w)"

text \<open>The turn of the next statement: the head of the schedule, calm when none is left.\<close>

definition next_turn :: "world \<Rightarrow> turn" where
  "next_turn w = (case schedule w of [] \<Rightarrow> Calm | t # ts \<Rightarrow> t)"

text \<open>A statement starts by taking its turn: the clock moves on, and a rival's insert, if
  the turn has one, is committed.\<close>

definition begin_statement :: "world \<Rightarrow> turn \<times> world" where
  "begin_statement w =
     (let t = next_turn w;
          v = w\<lparr>clock := Suc (clock w), schedule := tl (schedule w)\<rparr>
      in (t, case t of Rival r \<Rightarrow> run_rival r v | _ \<Rightarrow> v))"

text \<open>A statement fails in the driver when its turn says so, and when the file has no
  schema (no such table).\<close>

definition driver_fails :: "turn \<Rightarrow> world \<Rightarrow> bool" where
  "driver_fails t w = (t = Fails \<or> db_file w \<noteq> Schema_ready)"

text \<open>\<open>db.QueryRow("SELECT id FROM programs WHERE name = ?", name).Scan(&programID)\<close>.\<close>

definition query_program_id :: "string \<Rightarrow> world \<Rightarrow> (sql_error + int) \<times> world" where
  "query_program_id name w =
     (case begin_statement w of (t, w1) \<Rightarrow>
        if driver_fails t w1 then (Inl ErrDriver, w1)
        else (case program_row_of name w1 of
                None \<Rightarrow> (Inl ErrNoRows, w1)
              | Some r \<Rightarrow> (Inr (program_id r), w1)))"

text \<open>\<open>db.Exec("INSERT INTO programs (name, scope) VALUES (?, ?)", ...)\<close> followed by
  \<open>result.LastInsertId()\<close>, which the SQLite driver answers from the result without
  failing.\<close>

definition exec_insert_program :: "string \<Rightarrow> string \<Rightarrow> world \<Rightarrow> (sql_error + int) \<times> world" where
  "exec_insert_program name scope w =
     (case begin_statement w of (t, w1) \<Rightarrow>
        if driver_fails t w1 then (Inl ErrDriver, w1)
        else (case insert_program name scope w1 of
                Inl e \<Rightarrow> (Inl e, w1)
              | Inr (i, w2) \<Rightarrow> (Inr i, w2)))"

text \<open>\<open>db.QueryRow("SELECT id FROM targets WHERE target = ? AND program_id = ?", ...)\<close>.\<close>

definition query_target_id :: "string \<Rightarrow> int \<Rightarrow> world \<Rightarrow> (sql_error + int) \<times> world" where
  "query_target_id target pid w =
     (case begin_statement w of (t, w1) \<Rightarrow>
        if driver_fails t w1 then (Inl ErrDriver, w1)
        else (case target_row_of pid target w1 of
                None \<Rightarrow> (Inl ErrNoRows, w1)
              | Some r \<Rightarrow> (Inr (target_id r), w1)))"

definition exec_insert_target ::
    "int \<Rightarrow> string \<Rightarrow> string \<Rightarrow> string \<Rightarrow> nat \<Rightarrow> world \<Rightarrow> (sql_error + int) \<times> world" where
  "exec_insert_target pid target ty source checked w =
     (case begin_statement w of (t, w1) \<Rightarrow>
        if driver_fails t w1 then (Inl ErrDriver, w1)
        else (case insert_target pid target ty source checked w1 of
                Inl e \<Rightarrow> (Inl e, w1)
              | Inr (i, w2) \<Rightarrow> (Inr i, w2)))"

definition exec_insert_recon ::
    "int \<Rightarrow> string \<Rightarrow> string \<Rightarrow> string \<Rightarrow> nat \<Rightarrow> world \<Rightarrow> (sql_error + int) \<times> world" where
  "exec_insert_recon tid tool text ctx stamp w =
     (case begin_statement w of (t, w1) \<Rightarrow>
        if driver_fails t w1 then (Inl ErrDriver, w1)
        else (case insert_recon tid tool text ctx stamp w1 of (i, w2) \<Rightarrow> (Inr i, w2)))"

section \<open>The processors\<close>

text \<open>\<open>GetOrCreateProgram\<close> (processors/target_processor.go). \<open>sql.ErrNoRows\<close> from the
  lookup leads to the insert; an error of the insert is returned as it is, wrapped.\<close>

definition GetOrCreateProgram :: "world \<Rightarrow> string \<Rightarrow> (error + int) \<times> world" where
  "GetOrCreateProgram w domain =
     (let orgName = ExtractDomain domain in
      case query_program_id orgName w of
        (Inr programID, w1) \<Rightarrow>
          (Inr programID, say (Using_existing_program orgName programID) w1)
      | (Inl err, w1) \<Rightarrow>
          if err = ErrNoRows then
            (let scope = scope_pattern domain in
             case exec_insert_program orgName scope w1 of
               (Inl err', w2) \<Rightarrow> (Inl (Failed_to_create_program err'), w2)
             | (Inr new_id, w2) \<Rightarrow> (Inr new_id, say (Created_new_program orgName new_id) w2))
          else (Inl (Failed_to_query_program err), w1))"

text \<open>\<open>GetOrCreateTarget\<close>: the type is computed first; \<open>time.Now()\<close> is read when the
  insert is issued.\<close>

definition GetOrCreateTarget :: "world \<Rightarrow> string \<Rightarrow> string \<Rightarrow> int \<Rightarrow> (error + int) \<times> world" where
  "GetOrCreateTarget w targetURL toolName programID =
     (let ty = targetType targetURL in
      case query_target_id targetURL programID w of
        (Inr targetID, w1) \<Rightarrow> (Inr targetID, w1)
      | (Inl err, w1) \<Rightarrow>
          if err = ErrNoRows then
            (case exec_insert_target programID targetURL ty toolName (clock w1) w1 of
               (Inl err', w2) \<Rightarrow> (Inl (Failed_to_create_target err'), w2)
             | (Inr new_id, w2) \<Rightarrow> (Inr new_id, w2))
          else (Inl (Failed_to_query_target err), w1))"

text \<open>\<open>AddReconData\<close> (processors/recon_processor.go): \<open>None\<close> is Go's \<open>nil\<close> error.\<close>

definition AddReconData ::
    "world \<Rightarrow> int \<Rightarrow> string \<Rightarrow> string \<Rightarrow> string \<Rightarrow> error option \<times> world" where
  "AddReconData w targetID tool text ctx =
     (case exec_insert_recon targetID tool text ctx (clock w) w of
        (Inl err, w1) \<Rightarrow> (Some (Failed_to_insert_recon_data err), w1)
      | (Inr i, w1) \<Rightarrow> (None, w1))"

section \<open>Bootstrap\<close>

text \<open>\<open>HasStdinData\<close> (utils): the mode of standard input has no \<open>os.ModeCharDevice\<close> bit.
  \<open>os.FileMode\<close> is a \<open>uint32\<close>, and \<open>ModeCharDevice\<close> is \<open>1 << (32 - 1 - 10)\<close>.\<close>

definition ModeCharDevice :: "32 word" where
  "ModeCharDevice = push_bit 21 1"

definition HasStdinData :: "32 word \<Rightarrow> bool" where
  "HasStdinData mode = (mode AND ModeCharDevice = 0)"

text \<open>\<open>DetectTool\<close> (utils/detection.go) returns a constant.\<close>

definition DetectTool :: string where
  "DetectTool = ''pipeline_auto''"

text \<open>
  What the operating system gives a run: the mode \<open>os.Stdin.Stat()\<close> reports (\<open>None\<close> when
  it fails: \<open>main\<close> drops the error and calls \<open>Mode\<close> on a nil value), the tokens the
  \<open>bufio.Scanner\<close> yields from standard input, and which of the calls on the file system
  and the database file fail.
\<close>

record os_env =
  stdin_mode :: "32 word option"
  stdin_lines :: "string list"
  mkdir_fails :: bool
  create_fails :: bool
  open_fails :: bool
  ping_fails :: bool
  schema_fails :: bool
  init_open_fails :: bool
  init_ping_fails :: bool

text \<open>A database that SQLite has just created: no row, counters at zero.\<close>

definition fresh_tables :: "world \<Rightarrow> world" where
  "fresh_tables w =
     w\<lparr>programs := [], targets := [], recon_data := [],
       last_program_id := 0, last_target_id := 0, last_recon_id := 0\<rparr>"

text \<open>\<open>EnsureDBExists\<close> (database/database.go). A file that \<open>os.Stat\<close> finds is left as it
  is; the schema is written only to a file this call has created.\<close>

definition EnsureDBExists :: "os_env \<Rightarrow> world \<Rightarrow> error option \<times> world" where
  "EnsureDBExists env w =
     (if mkdir_fails env then (Some Failed_to_create_directory, w)
      else if db_file w \<noteq> Absent then (None, w)
      else
        (let w1 = say Database_not_found w in
         if create_fails env then (Some Failed_to_create_database_file, w1)
         else
           (let w2 = fresh_tables (w1\<lparr>db_file := No_schema\<rparr>) in
            if open_fails env then (Some Failed_to_open_database, w2)
            else if ping_fails env then (Some Database_ping_failed, w2)
            else
              (let w3 = say Initializing_schema w2 in
               if schema_fails env then (Some Failed_to_initialize_schema, w3)
               else (None, say Database_created (w3\<lparr>db_file := Schema_ready\<rparr>))))))"

text \<open>\<open>InitDB\<close>: \<open>sql.Open\<close> and \<open>Ping\<close>.\<close>

definition InitDB :: "os_env \<Rightarrow> error option" where
  "InitDB env =
     (if init_open_fails env then Some Failed_to_open_database
      else if init_ping_fails env then Some Database_ping_failed
      else None)"

section \<open>The run\<close>

text \<open>The body of the scanning loop of \<open>main\<close>; the state is \<open>(targets, firstTarget)\<close>, here \<open>(tgts, firstTarget)\<close>.\<close>

definition scan_line :: "string list \<times> string \<Rightarrow> string \<Rightarrow> string list \<times> string" where
  "scan_line st text =
     (case st of (tgts, firstTarget) \<Rightarrow>
        (let line = TrimSpace text in
         if line = [] then (tgts, firstTarget)
         else (tgts @ [line], if firstTarget = [] then line else firstTarget)))"

definition read_stdin :: "string list \<Rightarrow> string list \<times> string" where
  "read_stdin lines = foldl scan_line ([], []) lines"

text \<open>The body of the loop over the targets; the state is the world and
  \<open>processedCount\<close>. Both \<open>continue\<close>s leave the counter as it is.\<close>

definition process_target :: "string \<Rightarrow> int \<Rightarrow> world \<times> nat \<Rightarrow> string \<Rightarrow> world \<times> nat" where
  "process_target toolName programID st target =
     (case st of (w, processedCount) \<Rightarrow>
        (case GetOrCreateTarget w target toolName programID of
           (Inl err, w1) \<Rightarrow> (say (Error_with_target target err) w1, processedCount)
         | (Inr targetID, w1) \<Rightarrow>
             (case AddReconData w1 targetID toolName target (''Discovered via '' @ toolName) of
                (Some err, w2) \<Rightarrow> (say (Error_adding_recon_data target err) w2, processedCount)
              | (None, w2) \<Rightarrow> (say (Target_done target) w2, processedCount + 1))))"

definition process_targets :: "string \<Rightarrow> int \<Rightarrow> world \<Rightarrow> string list \<Rightarrow> world \<times> nat" where
  "process_targets toolName programID w tgts =
     foldl (process_target toolName programID) (w, 0) tgts"

text \<open>\<open>main\<close> from the scanning loop to its end, on an open database: the exit status
  and the world left behind. Falling off the end of \<open>main\<close> is status 0; \<open>os.Exit(1)\<close> and
  \<open>log.Fatalf\<close> are status 1.\<close>

definition ingest :: "string \<Rightarrow> string list \<Rightarrow> world \<Rightarrow> nat \<times> world" where
  "ingest toolName lines w0 =
     (let w = say Reading_from_stdin w0 in
      case read_stdin lines of (tgts, firstTarget) \<Rightarrow>
        if length tgts = 0 then (1, say No_valid_targets w)
        else
          (let w = say (Found_targets (length tgts)) w;
               domain = main_domain firstTarget;
               w = say (Extracted_domain domain) w
           in case GetOrCreateProgram w domain of
                (Inl err, w1) \<Rightarrow> (1, say (Fatal err) w1)
              | (Inr programID, w1) \<Rightarrow>
                  (case process_targets toolName programID w1 tgts of
                     (w2, processedCount) \<Rightarrow>
                       (let w3 = say (Completed processedCount (length tgts) programID) w2 in
                        if processedCount > 0 then (0, say Next_hint w3)
                        else (1, say No_targets_processed w3)))))"

text \<open>\<open>main\<close> (main.go). A nil \<open>FileInfo\<close> makes \<open>stat.Mode()\<close> panic, which ends a Go
  program with status 2.\<close>

definition main :: "os_env \<Rightarrow> world \<Rightarrow> nat \<times> world" where
  "main env w =
     (case stdin_mode env of
        None \<Rightarrow> (2, w)
      | Some mode \<Rightarrow>
          if \<not> HasStdinData mode then
            (let w1 = say Ensuring_database_exists (say No_input_provided w) in
             case EnsureDBExists env w1 of
               (Some err, w2) \<Rightarrow> (1, say (Fatal err) w2)
             | (None, w2) \<Rightarrow>
                 (0, say Usage_hint (say Usage_hint (say Database_is_ready w2))))
          else
            (let toolName = DetectTool;
                 w1 = say Database_path (say (Auto_detected_tool toolName) w) in
             case EnsureDBExists env w1 of
               (Some err, w2) \<Rightarrow> (1, say (Fatal err) w2)
             | (None, w2) \<Rightarrow>
                 (case InitDB env of
                    Some err \<Rightarrow> (1, say (Fatal err) w2)
                  | None \<Rightarrow> ingest toolName (stdin_lines env) w2)))"

text \<open>An empty database with its schema, a calm schedule and nothing printed.\<close>

definition empty_world :: world where
  "empty_world =
     \<lparr>db_file = Schema_ready, programs = [], targets = [], recon_data = [],
      last_program_id = 0, last_target_id = 0, last_recon_id = 0,
      clock = 0, schedule = [], console = []\<rparr>"

text \<open>The environment of a run with the given lines piped in and no failing call.\<close>

definition piped :: "string list \<Rightarrow> os_env" where
  "piped lines =
     \<lparr>stdin_mode = Some 0, stdin_lines = lines, mkdir_fails = False, create_fails = False,
      open_fails = False, ping_fails = False, schema_fails = False,
      init_open_fails = False, init_ping_fails = False\<rparr>"

section \<open>Notions used in the statements\<close>

text \<open>A world \<open>w'\<close> extends \<open>w\<close> when every table and the console of \<open>w\<close> is an initial part
  of the one of \<open>w'\<close>: rows and messages are only ever added at the end, none is changed,
  moved or removed.\<close>

definition extends :: "world \<Rightarrow> world \<Rightarrow> bool" where
  "extends w w' \<longleftrightarrow>
     prefix (programs w) (programs w') \<and> prefix (targets w) (targets w')
     \<and> prefix (recon_data w) (recon_data w') \<and> prefix (console w) (console w')
     \<and> db_file w' = db_file w"

text \<open>A calm world: the schema is there, and no failure and no rival is to come.\<close>

definition calm :: "world \<Rightarrow> bool" where
  "calm w \<longleftrightarrow> schedule w = [] \<and> db_file w = Schema_ready"

text \<open>The line a message of the loop over the targets reports on, and whether it reports
  the line as done.\<close>

fun report_line :: "message \<Rightarrow> string option" where
  "report_line (Target_done t) = Some t"
| "report_line (Error_with_target t e) = Some t"
| "report_line (Error_adding_recon_data t e) = Some t"
| "report_line m = None"

fun is_done :: "message \<Rightarrow> bool" where
  "is_done (Target_done t) = True"
| "is_done m = False"



section \<open>The specification's reading of the prefix rule\<close>


section \<open>Scenarios\<close>

text \<open>Concrete worlds and environments on which the statements below are evaluated.\<close>




text \<open>A rival creates the program \<open>example\<close> between the lookup and the insert of this
  process.\<close>

definition race_world :: world where
  "race_world = empty_world\<lparr>schedule := [Calm, Rival (Rival_program ''example'' ''*.example.com'')]\<rparr>"

text \<open>A rival records the target \<open>example.com\<close> under program 1 between the lookup and the
  insert of this process: at the start of a run, and right at a call of
  \<open>GetOrCreateTarget\<close>.\<close>

definition target_race_world :: world where
  "target_race_world =
     empty_world\<lparr>schedule := [Calm, Calm, Calm, Rival (Rival_target 1 ''example.com'' ''domain'' ''rival'')]\<rparr>"

definition target_clash_world :: world where
  "target_clash_world =
     empty_world\<lparr>schedule := [Calm, Rival (Rival_target 1 ''example.com'' ''domain'' ''rival'')]\<rparr>"

text \<open>No database file yet.\<close>

definition absent_world :: world where
  "absent_world = empty_world\<lparr>db_file := Absent\<rparr>"

text \<open>Standard input is a terminal: a character device with mode \<open>Dcrw--w----\<close>.\<close>

definition terminal :: os_env where
  "terminal = (piped [])\<lparr>stdin_mode := Some 0x4200190\<rparr>"

text \<open>The empty database after one run, and after a second run, on the line
  \<open>example.com\<close>.\<close>

definition once_world :: world where
  "once_world = snd (ingest ''pipeline_auto'' [''example.com''] empty_world)"

definition twice_world :: world where
  "twice_world = snd (ingest ''pipeline_auto'' [''example.com''] once_world)"

section \<open>The string primitives against the list library\<close>

lemma HasPrefix_iff_prefix: "HasPrefix s p \<longleftrightarrow> prefix p s"
  by (induction s p rule: HasPrefix.induct) auto

lemma Contains_iff_sublist: "Contains s sub \<longleftrightarrow> sublist sub s"
  by (induction s) (auto simp: HasPrefix_iff_prefix sublist_Cons_right)

lemma Contains_byte_iff: "Contains s [b] \<longleftrightarrow> b \<in> set s"
  by (induction s) auto

lemma Count_byte_eq_count_list: "Count_byte s b = count_list s b"
  by (induction s) auto

lemma Count_byte_eq_filter: "Count_byte s b = length (filter (\<lambda>c. c = b) s)"
  by (induction s) auto

lemma sublist_scheme_sep_colon: "sublist ''://'' s \<Longrightarrow> CHR '':'' \<in> set s"
  using set_mono_sublist by fastforce

section \<open>The organisation name: helper facts\<close>













lemmas extract_simps =
  ExtractDomain_def anchored_host_def match_scheme_def scheme_s_def scheme_sep_def
  host_chars_def trim_prefixes_def TrimPrefix_def main_domain_def

section \<open>Rows and messages are only added\<close>

lemma extends_refl: "extends w w"
  by (simp add: extends_def)

lemma extends_trans: "extends a b \<Longrightarrow> extends b c \<Longrightarrow> extends a c"
  unfolding extends_def by (metis prefix_order.order_trans)

lemma extends_say: "extends w (say m w)"
  by (simp add: extends_def say_def)

lemma extends_tick: "extends w (w\<lparr>clock := c\<rparr>)" "extends w (w\<lparr>clock := c, schedule := ts\<rparr>)"
  by (simp_all add: extends_def)

lemma insert_program_extends:
  "insert_program name scope w = Inr (i, w') \<Longrightarrow> extends w w' \<and> console w' = console w"
  by (auto simp: insert_program_def extends_def Let_def split: if_splits)

lemma insert_target_extends:
  "insert_target pid t ty src chk w = Inr (i, w') \<Longrightarrow> extends w w' \<and> console w' = console w"
  by (auto simp: insert_target_def extends_def Let_def split: if_splits)

lemma insert_recon_extends:
  "insert_recon tid tool text ctx stamp w = (i, w') \<Longrightarrow> extends w w' \<and> console w' = console w"
  by (auto simp: insert_recon_def extends_def Let_def)

lemma run_rival_extends: "extends w (run_rival r w) \<and> console (run_rival r w) = console w"
proof (cases r)
  case (Rival_program name scope)
  then show ?thesis
    using insert_program_extends [of name scope w]
    by (auto simp: extends_refl split: sum.splits)
next
  case (Rival_target pid t ty src)
  then show ?thesis
    using insert_target_extends [of pid t ty src "clock w" w]
    by (auto simp: extends_refl split: sum.splits)
next
  case (Rival_recon tid tool payload ctx)
  then show ?thesis
    using insert_recon_extends [of tid tool payload ctx "clock w" w]
    by (cases "insert_recon tid tool payload ctx (clock w) w") auto
qed

lemma begin_statement_extends:
  assumes "begin_statement w = (t, w1)"
  shows "extends w w1 \<and> console w1 = console w"
proof -
  let ?v = "w\<lparr>clock := Suc (clock w), schedule := tl (schedule w)\<rparr>"
  have v: "extends w ?v \<and> console ?v = console w"
    by (simp add: extends_def)
  show ?thesis
  proof (cases "next_turn w")
    case (Rival r)
    with assms have "w1 = run_rival r ?v"
      by (simp add: begin_statement_def Let_def)
    with v run_rival_extends [of ?v r] show ?thesis
      by (metis extends_trans)
  next
    case Calm
    with assms have "w1 = ?v" by (simp add: begin_statement_def Let_def)
    with v show ?thesis by simp
  next
    case Fails
    with assms have "w1 = ?v" by (simp add: begin_statement_def Let_def)
    with v show ?thesis by simp
  qed
qed

lemma query_program_id_extends:
  assumes "query_program_id name w = (r, w1)"
  shows "extends w w1 \<and> console w1 = console w"
proof -
  obtain t v where b: "begin_statement w = (t, v)" by (cases "begin_statement w")
  with assms have "w1 = v"
    by (auto simp: query_program_id_def split: if_splits option.splits)
  with begin_statement_extends [OF b] show ?thesis by simp
qed

lemma query_target_id_extends:
  assumes "query_target_id target pid w = (r, w1)"
  shows "extends w w1 \<and> console w1 = console w"
proof -
  obtain t v where b: "begin_statement w = (t, v)" by (cases "begin_statement w")
  with assms have "w1 = v"
    by (auto simp: query_target_id_def split: if_splits option.splits)
  with begin_statement_extends [OF b] show ?thesis by simp
qed

lemma exec_insert_program_extends:
  assumes "exec_insert_program name scope w = (r, w1)"
  shows "extends w w1 \<and> console w1 = console w"
proof -
  obtain t v where b: "begin_statement w = (t, v)" by (cases "begin_statement w")
  note bv = begin_statement_extends [OF b]
  show ?thesis
  proof (cases "driver_fails t v")
    case True
    with assms b have "w1 = v" by (simp add: exec_insert_program_def)
    with bv show ?thesis by simp
  next
    case False
    show ?thesis
    proof (cases "insert_program name scope v")
      case (Inl e)
      with assms b False have "w1 = v" by (simp add: exec_insert_program_def)
      with bv show ?thesis by simp
    next
      case (Inr p)
      obtain i v' where p: "p = (i, v')" by (cases p)
      with Inr assms b False have "w1 = v'" by (simp add: exec_insert_program_def)
      with insert_program_extends [of name scope v i v'] Inr p bv show ?thesis
        by (metis extends_trans)
    qed
  qed
qed

lemma exec_insert_target_extends:
  assumes "exec_insert_target pid target ty src chk w = (r, w1)"
  shows "extends w w1 \<and> console w1 = console w"
proof -
  obtain t v where b: "begin_statement w = (t, v)" by (cases "begin_statement w")
  note bv = begin_statement_extends [OF b]
  show ?thesis
  proof (cases "driver_fails t v")
    case True
    with assms b have "w1 = v" by (simp add: exec_insert_target_def)
    with bv show ?thesis by simp
  next
    case False
    show ?thesis
    proof (cases "insert_target pid target ty src chk v")
      case (Inl e)
      with assms b False have "w1 = v" by (simp add: exec_insert_target_def)
      with bv show ?thesis by simp
    next
      case (Inr p)
      obtain i v' where p: "p = (i, v')" by (cases p)
      with Inr assms b False have "w1 = v'" by (simp add: exec_insert_target_def)
      with insert_target_extends [of pid target ty src chk v i v'] Inr p bv show ?thesis
        by (metis extends_trans)
    qed
  qed
qed

lemma exec_insert_recon_extends:
  assumes "exec_insert_recon tid tool text ctx stamp w = (r, w1)"
  shows "extends w w1 \<and> console w1 = console w"
proof -
  obtain t v where b: "begin_statement w = (t, v)" by (cases "begin_statement w")
  note bv = begin_statement_extends [OF b]
  show ?thesis
  proof (cases "driver_fails t v")
    case True
    with assms b have "w1 = v" by (simp add: exec_insert_recon_def)
    with bv show ?thesis by simp
  next
    case False
    obtain i v' where p: "insert_recon tid tool text ctx stamp v = (i, v')"
      by (cases "insert_recon tid tool text ctx stamp v")
    with assms b False have "w1 = v'" by (simp add: exec_insert_recon_def)
    with insert_recon_extends [OF p] bv show ?thesis
      by (metis extends_trans)
  qed
qed

lemma GetOrCreateTarget_extends:
  assumes "GetOrCreateTarget w target tool pid = (r, w')"
  shows "extends w w' \<and> console w' = console w"
proof -
  obtain q w1 where q: "query_target_id target pid w = (q, w1)"
    by (cases "query_target_id target pid w")
  note q1 = query_target_id_extends [OF q]
  show ?thesis
  proof (cases q)
    case (Inr tid)
    with assms q have "w' = w1" by (simp add: GetOrCreateTarget_def)
    with q1 show ?thesis by simp
  next
    case (Inl err)
    show ?thesis
    proof (cases "err = ErrNoRows")
      case False
      with Inl assms q have "w' = w1" by (simp add: GetOrCreateTarget_def)
      with q1 show ?thesis by simp
    next
      case True
      obtain x w2 where x:
        "exec_insert_target pid target (targetType target) tool (clock w1) w1 = (x, w2)"
        by (cases "exec_insert_target pid target (targetType target) tool (clock w1) w1")
      with True Inl assms q have "w' = w2"
        by (auto simp: GetOrCreateTarget_def split: sum.splits)
      with exec_insert_target_extends [OF x] q1 show ?thesis
        by (metis extends_trans)
    qed
  qed
qed

lemma AddReconData_extends:
  assumes "AddReconData w tid tool payload ctx = (r, w')"
  shows "extends w w' \<and> console w' = console w"
proof -
  obtain x w1 where x: "exec_insert_recon tid tool payload ctx (clock w) w = (x, w1)"
    by (cases "exec_insert_recon tid tool payload ctx (clock w) w")
  with assms have "w' = w1"
    by (auto simp: AddReconData_def split: sum.splits)
  with exec_insert_recon_extends [OF x] show ?thesis by simp
qed

lemma GetOrCreateProgram_extends:
  assumes "GetOrCreateProgram w domain = (r, w')"
  shows "extends w w' \<and> (\<exists>msgs. console w' = console w @ msgs \<and> filter is_done msgs = [])"
proof -
  let ?name = "ExtractDomain domain"
  obtain q w1 where q: "query_program_id ?name w = (q, w1)"
    by (cases "query_program_id ?name w")
  note q1 = query_program_id_extends [OF q]
  show ?thesis
  proof (cases q)
    case (Inr i)
    with assms q have w': "w' = say (Using_existing_program ?name i) w1"
      by (simp add: GetOrCreateProgram_def)
    have "extends w w'"
      unfolding w' using q1 extends_say by (metis extends_trans)
    moreover have "console w' = console w @ [Using_existing_program ?name i]"
      unfolding w' using q1 by (simp add: say_def)
    ultimately show ?thesis by force
  next
    case (Inl err)
    show ?thesis
    proof (cases "err = ErrNoRows")
      case False
      with Inl assms q have "w' = w1" by (simp add: GetOrCreateProgram_def)
      with q1 show ?thesis by simp
    next
      case True
      obtain x w2 where x:
        "exec_insert_program ?name (scope_pattern domain) w1 = (x, w2)"
        by (cases "exec_insert_program ?name (scope_pattern domain) w1")
      note x2 = exec_insert_program_extends [OF x]
      have w2: "extends w w2 \<and> console w2 = console w"
        using q1 x2 by (metis extends_trans)
      show ?thesis
      proof (cases x)
        case (Inl e)
        with True \<open>q = Inl err\<close> assms q x have "w' = w2"
          by (simp add: GetOrCreateProgram_def)
        with w2 show ?thesis by simp
      next
        case (Inr i)
        with True \<open>q = Inl err\<close> assms q x
        have w': "w' = say (Created_new_program ?name i) w2"
          by (simp add: GetOrCreateProgram_def)
        have "extends w w'"
          unfolding w' using w2 extends_say by (metis extends_trans)
        moreover have "console w' = console w @ [Created_new_program ?name i]"
          unfolding w' using w2 by (simp add: say_def)
        ultimately show ?thesis by force
      qed
    qed
  qed
qed

lemma process_target_step:
  assumes "process_target tool pid (w, c) t = (w', c')"
  shows "extends w w'
     \<and> (\<exists>m. console w' = console w @ [m] \<and> report_line m = Some t
              \<and> c' = c + (if is_done m then 1 else 0))"
proof -
  obtain g w1 where g: "GetOrCreateTarget w t tool pid = (g, w1)"
    by (cases "GetOrCreateTarget w t tool pid")
  note g1 = GetOrCreateTarget_extends [OF g]
  show ?thesis
  proof (cases g)
    case (Inl err)
    with assms g have *: "w' = say (Error_with_target t err) w1" "c' = c"
      by (simp_all add: process_target_def)
    have "extends w w'"
      unfolding * using g1 extends_say by (metis extends_trans)
    moreover have "console w' = console w @ [Error_with_target t err]"
      unfolding * using g1 by (simp add: say_def)
    ultimately show ?thesis using *(2) by force
  next
    case (Inr tid)
    obtain a w2 where a:
      "AddReconData w1 tid tool t (''Discovered via '' @ tool) = (a, w2)"
      by (cases "AddReconData w1 tid tool t (''Discovered via '' @ tool)")
    note a2 = AddReconData_extends [OF a]
    have w2: "extends w w2 \<and> console w2 = console w"
      using g1 a2 by (metis extends_trans)
    show ?thesis
    proof (cases a)
      case (Some err)
      with Inr assms g a have *: "w' = say (Error_adding_recon_data t err) w2" "c' = c"
        by (simp_all add: process_target_def)
      have "extends w w'"
        unfolding * using w2 extends_say by (metis extends_trans)
      moreover have "console w' = console w @ [Error_adding_recon_data t err]"
        unfolding * using w2 by (simp add: say_def)
      ultimately show ?thesis using *(2) by force
    next
      case None
      with Inr assms g a have *: "w' = say (Target_done t) w2" "c' = c + 1"
        by (simp_all add: process_target_def)
      have "extends w w'"
        unfolding * using w2 extends_say by (metis extends_trans)
      moreover have "console w' = console w @ [Target_done t]"
        unfolding * using w2 by (simp add: say_def)
      ultimately show ?thesis using *(2) by force
    qed
  qed
qed

lemma foldl_process_target:
  "foldl (process_target tool pid) (w, c) ts = (w', c') \<Longrightarrow>
     extends w w'
     \<and> (\<exists>msgs. console w' = console w @ msgs \<and> map report_line msgs = map Some ts
                 \<and> c' = c + length (filter is_done msgs))"
proof (induction ts arbitrary: w c)
  case Nil
  then show ?case by (simp add: extends_refl)
next
  case (Cons t ts)
  obtain w1 c1 where s: "process_target tool pid (w, c) t = (w1, c1)"
    by (cases "process_target tool pid (w, c) t")
  from process_target_step [OF s] obtain m where m:
    "extends w w1" "console w1 = console w @ [m]" "report_line m = Some t"
    "c1 = c + (if is_done m then 1 else 0)" by blast
  from Cons.prems s have "foldl (process_target tool pid) (w1, c1) ts = (w', c')"
    by simp
  from Cons.IH [OF this] obtain msgs where r:
    "extends w1 w'" "console w' = console w1 @ msgs" "map report_line msgs = map Some ts"
    "c' = c1 + length (filter is_done msgs)" by blast
  have "extends w w'" using m(1) r(1) by (rule extends_trans)
  moreover have "console w' = console w @ (m # msgs)" using m(2) r(2) by simp
  moreover have "map report_line (m # msgs) = map Some (t # ts)" using m(3) r(3) by simp
  moreover have "c' = c + length (filter is_done (m # msgs))" using m(4) r(4) by simp
  ultimately show ?case by blast
qed

lemma process_targets_report:
  assumes "process_targets tool pid w ts = (w', n)"
  shows "extends w w'
     \<and> (\<exists>msgs. console w' = console w @ msgs \<and> map report_line msgs = map Some ts
                 \<and> n = length (filter is_done msgs))"
  using foldl_process_target [of tool pid w 0 ts w' n] assms
  by (simp add: process_targets_def)



lemma ingest_empty:
  assumes "fst (read_stdin lines) = []"
  shows "ingest tool lines w = (1, say No_valid_targets (say Reading_from_stdin w))"
proof -
  obtain f where "read_stdin lines = ([], f)"
    using assms by (cases "read_stdin lines") simp
  then show ?thesis by (simp add: ingest_def)
qed

lemma ingest_report:
  assumes "ingest tool lines w = (code, w')"
  shows "extends w w'
     \<and> (\<exists>msgs. console w' = console w @ msgs
                 \<and> (code = 0 \<longleftrightarrow> filter is_done msgs \<noteq> [])
                 \<and> (code = 0 \<or> code = 1))"
proof -
  obtain tgts first where rd: "read_stdin lines = (tgts, first)"
    by (cases "read_stdin lines")
  show ?thesis
  proof (cases "tgts = []")
    case True
    with rd have "ingest tool lines w = (1, say No_valid_targets (say Reading_from_stdin w))"
      by (simp add: ingest_empty)
    with assms have c: "code = 1" and w': "w' = say No_valid_targets (say Reading_from_stdin w)"
      by simp_all
    have "extends w w'" unfolding w' by (simp add: extends_def say_def)
    moreover have "console w' = console w @ [Reading_from_stdin, No_valid_targets]"
      unfolding w' by (simp add: say_def)
    ultimately show ?thesis using c by force
  next
    case False
    define wa where "wa = say (Extracted_domain (main_domain first))
      (say (Found_targets (length tgts)) (say Reading_from_stdin w))"
    have wa: "extends w wa"
      "console wa = console w @ [Reading_from_stdin, Found_targets (length tgts),
         Extracted_domain (main_domain first)]"
      by (simp_all add: wa_def extends_def say_def)
    obtain g w1 where g: "GetOrCreateProgram wa (main_domain first) = (g, w1)"
      by (cases "GetOrCreateProgram wa (main_domain first)")
    from GetOrCreateProgram_extends [OF g] obtain m1 where m1:
      "extends wa w1" "console w1 = console wa @ m1" "filter is_done m1 = []" by blast
    show ?thesis
    proof (cases g)
      case (Inl err)
      with False rd g assms have c: "code = 1" and w': "w' = say (Fatal err) w1"
        by (simp_all add: ingest_def Let_def wa_def)
      have "extends w w'"
        unfolding w' using wa(1) m1(1) extends_say by (metis extends_trans)
      moreover have "console w' = console w @ ([Reading_from_stdin,
          Found_targets (length tgts), Extracted_domain (main_domain first)] @ m1 @ [Fatal err])"
        unfolding w' using wa(2) m1(2) by (simp add: say_def)
      moreover have "filter is_done ([Reading_from_stdin,
          Found_targets (length tgts), Extracted_domain (main_domain first)] @ m1 @ [Fatal err]) = []"
        using m1(3) by simp
      ultimately show ?thesis using c by force
    next
      case (Inr pid)
      obtain w2 n where p: "process_targets tool pid w1 tgts = (w2, n)"
        by (cases "process_targets tool pid w1 tgts")
      from process_targets_report [OF p] obtain m2 where m2:
        "extends w1 w2" "console w2 = console w1 @ m2" "n = length (filter is_done m2)"
        by blast
      define fin where "fin = (if n > 0 then Next_hint else No_targets_processed)"
      from Inr False rd g p assms
      have c: "code = (if n > 0 then 0 else 1)"
        and w': "w' = say fin (say (Completed n (length tgts) pid) w2)"
        by (auto simp: ingest_def Let_def wa_def fin_def)
      let ?all = "[Reading_from_stdin, Found_targets (length tgts),
          Extracted_domain (main_domain first)] @ m1 @ m2 @ [Completed n (length tgts) pid, fin]"
      have "extends w w2"
        using wa(1) m1(1) m2(1) by (metis extends_trans)
      then have "extends w w'"
        unfolding w' by (simp add: extends_def say_def)
      moreover have "console w' = console w @ ?all"
        unfolding w' using wa(2) m1(2) m2(2) by (simp add: say_def)
      moreover have "filter is_done ?all = filter is_done m2"
        using m1(3) by (simp add: fin_def)
      moreover have "code = 0 \<longleftrightarrow> filter is_done m2 \<noteq> []"
        using c m2(3) by auto
      moreover have "code = 0 \<or> code = 1" using c by simp
      ultimately show ?thesis by metis
    qed
  qed
qed

section \<open>Calm worlds\<close>

lemma find_snoc:
  "find P (xs @ [x]) = (case find P xs of None \<Rightarrow> (if P x then Some x else None) | Some y \<Rightarrow> Some y)"
  by (induction xs) auto

lemma find_app:
  "find P (xs @ ys) = (case find P xs of None \<Rightarrow> find P ys | Some y \<Rightarrow> Some y)"
  by (induction xs) auto

lemma begin_statement_plain:
  "next_turn w = Calm \<Longrightarrow>
     begin_statement w = (Calm, w\<lparr>clock := Suc (clock w), schedule := tl (schedule w)\<rparr>)"
  by (simp add: begin_statement_def Let_def)

lemma calm_next_turn: "calm w \<Longrightarrow> next_turn w = Calm"
  by (simp add: calm_def next_turn_def)

lemma calm_say: "calm (say m w) = calm w"
  by (simp add: calm_def say_def)

lemma GetOrCreateTarget_found:
  assumes "next_turn w = Calm" "db_file w = Schema_ready" "target_row_of pid t w = Some r"
  shows "GetOrCreateTarget w t tool pid =
           (Inr (target_id r), w\<lparr>clock := Suc (clock w), schedule := tl (schedule w)\<rparr>)"
proof -
  let ?v = "w\<lparr>clock := Suc (clock w), schedule := tl (schedule w)\<rparr>"
  have b: "begin_statement w = (Calm, ?v)"
    using assms(1) by (rule begin_statement_plain)
  have "target_row_of pid t ?v = Some r"
    using assms(3) by (simp add: target_row_of_def)
  moreover have "\<not> driver_fails Calm ?v"
    using assms(2) by (simp add: driver_fails_def)
  ultimately have "query_target_id t pid w = (Inr (target_id r), ?v)"
    using b by (simp add: query_target_id_def)
  then show ?thesis by (simp add: GetOrCreateTarget_def)
qed

lemma GetOrCreateProgram_found:
  assumes "next_turn w = Calm" "db_file w = Schema_ready"
    "program_row_of (ExtractDomain d) w = Some r"
  shows "GetOrCreateProgram w d =
           (Inr (program_id r),
            say (Using_existing_program (ExtractDomain d) (program_id r))
              (w\<lparr>clock := Suc (clock w), schedule := tl (schedule w)\<rparr>))"
proof -
  let ?v = "w\<lparr>clock := Suc (clock w), schedule := tl (schedule w)\<rparr>"
  have b: "begin_statement w = (Calm, ?v)"
    using assms(1) by (rule begin_statement_plain)
  have "program_row_of (ExtractDomain d) ?v = Some r"
    using assms(3) by (simp add: program_row_of_def)
  moreover have "\<not> driver_fails Calm ?v"
    using assms(2) by (simp add: driver_fails_def)
  ultimately have "query_program_id (ExtractDomain d) w = (Inr (program_id r), ?v)"
    using b by (simp add: query_program_id_def)
  then show ?thesis by (simp add: GetOrCreateProgram_def)
qed

lemma GetOrCreateTarget_new:
  assumes "calm w" "target_row_of pid t w = None"
  shows "\<exists>row w'. GetOrCreateTarget w t tool pid = (Inr (target_id row), w')
           \<and> calm w' \<and> programs w' = programs w \<and> recon_data w' = recon_data w
           \<and> console w' = console w
           \<and> targets w' = targets w @ [row]
           \<and> target_target row = t \<and> target_program_id row = pid
           \<and> target_type row = Some (targetType t) \<and> target_source row = Some tool"
proof -
  let ?v = "w\<lparr>clock := Suc (clock w), schedule := tl (schedule w)\<rparr>"
  let ?u = "?v\<lparr>clock := Suc (clock ?v), schedule := tl (schedule ?v)\<rparr>"
  have cv: "calm ?v" "calm ?u" using assms(1) by (simp_all add: calm_def)
  have b: "begin_statement w = (Calm, ?v)"
    using assms(1) by (intro begin_statement_plain calm_next_turn)
  have b': "begin_statement ?v = (Calm, ?u)"
    using cv(1) by (intro begin_statement_plain calm_next_turn)
  have nf: "\<not> driver_fails Calm ?v" "\<not> driver_fails Calm ?u"
    using assms(1) by (simp_all add: driver_fails_def calm_def)
  have none: "target_row_of pid t ?v = None" "target_row_of pid t ?u = None"
    using assms(2) by (simp_all add: target_row_of_def)
  have q: "query_target_id t pid w = (Inl ErrNoRows, ?v)"
    using b nf(1) none(1) by (simp add: query_target_id_def)
  define row where "row = \<lparr>target_id = last_target_id w + 1, target_program_id = pid,
      target_target = t, target_type = Some (targetType t), target_source = Some tool,
      target_alive = False, target_last_checked = Some (clock ?v), target_tested = False,
      target_tested_date = None, target_test_notes = None, target_notes = None,
      target_created_at = clock ?u\<rparr>"
  define w' where "w' = ?u\<lparr>targets := targets w @ [row], last_target_id := last_target_id w + 1\<rparr>"
  have ins: "insert_target pid t (targetType t) tool (clock ?v) ?u = Inr (last_target_id w + 1, w')"
    using none(2) by (simp add: insert_target_def Let_def row_def w'_def)
  have x: "exec_insert_target pid t (targetType t) tool (clock ?v) ?v = (Inr (last_target_id w + 1), w')"
    using b' nf(2) ins by (simp add: exec_insert_target_def)
  have "GetOrCreateTarget w t tool pid = (Inr (target_id row), w')"
    using q x by (simp add: GetOrCreateTarget_def row_def)
  moreover have "calm w'" using assms(1) by (simp add: w'_def calm_def)
  moreover have "programs w' = programs w" "recon_data w' = recon_data w"
    "console w' = console w" "targets w' = targets w @ [row]"
    by (simp_all add: w'_def)
  moreover have "target_target row = t" "target_program_id row = pid"
    "target_type row = Some (targetType t)" "target_source row = Some tool"
    by (simp_all add: row_def)
  ultimately show ?thesis by blast
qed

lemma GetOrCreateProgram_new:
  assumes "calm w" "program_row_of (ExtractDomain d) w = None"
  shows "\<exists>row w'. GetOrCreateProgram w d = (Inr (program_id row), w')
           \<and> calm w' \<and> targets w' = targets w \<and> recon_data w' = recon_data w
           \<and> programs w' = programs w @ [row]
           \<and> program_id row = last_program_id w + 1
           \<and> program_name row = ExtractDomain d
           \<and> program_scope row = Some (''*.'' @ TrimPrefix d ''www.'')
           \<and> program_url row = None \<and> program_out_of_scope row = None
           \<and> program_bounty_notes row = None"
proof -
  let ?name = "ExtractDomain d"
  let ?v = "w\<lparr>clock := Suc (clock w), schedule := tl (schedule w)\<rparr>"
  let ?u = "?v\<lparr>clock := Suc (clock ?v), schedule := tl (schedule ?v)\<rparr>"
  have cv: "calm ?v" "calm ?u" using assms(1) by (simp_all add: calm_def)
  have b: "begin_statement w = (Calm, ?v)"
    using assms(1) by (intro begin_statement_plain calm_next_turn)
  have b': "begin_statement ?v = (Calm, ?u)"
    using cv(1) by (intro begin_statement_plain calm_next_turn)
  have nf: "\<not> driver_fails Calm ?v" "\<not> driver_fails Calm ?u"
    using assms(1) by (simp_all add: driver_fails_def calm_def)
  have none: "program_row_of ?name ?v = None" "program_row_of ?name ?u = None"
    using assms(2) by (simp_all add: program_row_of_def)
  have q: "query_program_id ?name w = (Inl ErrNoRows, ?v)"
    using b nf(1) none(1) by (simp add: query_program_id_def)
  define row where "row = \<lparr>program_id = last_program_id w + 1, program_name = ?name,
      program_url = None, program_scope = Some (scope_pattern d),
      program_out_of_scope = None, program_bounty_notes = None,
      program_created_at = clock ?u\<rparr>"
  define u' where "u' = ?u\<lparr>programs := programs w @ [row], last_program_id := last_program_id w + 1\<rparr>"
  define w' where "w' = say (Created_new_program ?name (last_program_id w + 1)) u'"
  have ins: "insert_program ?name (scope_pattern d) ?u = Inr (last_program_id w + 1, u')"
    using none(2) by (simp add: insert_program_def Let_def row_def u'_def)
  have x: "exec_insert_program ?name (scope_pattern d) ?v = (Inr (last_program_id w + 1), u')"
    using b' nf(2) ins by (simp add: exec_insert_program_def)
  have "GetOrCreateProgram w d = (Inr (program_id row), w')"
    using q x by (simp add: GetOrCreateProgram_def row_def w'_def)
  moreover have "calm w'" using assms(1) by (simp add: w'_def u'_def calm_def say_def)
  moreover have "targets w' = targets w" "recon_data w' = recon_data w"
    "programs w' = programs w @ [row]"
    by (simp_all add: w'_def u'_def say_def)
  moreover have "program_id row = last_program_id w + 1" "program_name row = ?name"
    "program_scope row = Some (''*.'' @ TrimPrefix d ''www.'')"
    "program_url row = None" "program_out_of_scope row = None"
    "program_bounty_notes row = None"
    by (simp_all add: row_def scope_pattern_def)
  ultimately show ?thesis by blast
qed

lemma AddReconData_calm:
  assumes "calm w"
  shows "\<exists>row w'. AddReconData w tid tool payload ctx = (None, w')
           \<and> calm w' \<and> programs w' = programs w \<and> targets w' = targets w
           \<and> console w' = console w
           \<and> recon_data w' = recon_data w @ [row]
           \<and> recon_target_id row = tid \<and> recon_tool row = tool
           \<and> recon_text row = payload \<and> recon_context row = Some ctx"
proof -
  let ?v = "w\<lparr>clock := Suc (clock w), schedule := tl (schedule w)\<rparr>"
  have b: "begin_statement w = (Calm, ?v)"
    using assms by (intro begin_statement_plain calm_next_turn)
  have nf: "\<not> driver_fails Calm ?v"
    using assms by (simp add: driver_fails_def calm_def)
  define row where "row = \<lparr>recon_id = last_recon_id w + 1, recon_target_id = tid,
      recon_tool = tool, recon_text = payload, recon_context = Some ctx,
      recon_timestamp = clock w\<rparr>"
  define w' where "w' = ?v\<lparr>recon_data := recon_data w @ [row], last_recon_id := last_recon_id w + 1\<rparr>"
  have "insert_recon tid tool payload ctx (clock w) ?v = (last_recon_id w + 1, w')"
    by (simp add: insert_recon_def Let_def row_def w'_def)
  with b nf have "exec_insert_recon tid tool payload ctx (clock w) w = (Inr (last_recon_id w + 1), w')"
    by (simp add: exec_insert_recon_def)
  then have "AddReconData w tid tool payload ctx = (None, w')"
    by (simp add: AddReconData_def)
  moreover have "calm w'" using assms by (simp add: w'_def calm_def)
  moreover have "programs w' = programs w" "targets w' = targets w" "console w' = console w"
    "recon_data w' = recon_data w @ [row]"
    by (simp_all add: w'_def)
  moreover have "recon_target_id row = tid" "recon_tool row = tool"
    "recon_text row = payload" "recon_context row = Some ctx"
    by (simp_all add: row_def)
  ultimately show ?thesis by blast
qed

lemma GetOrCreateTarget_calm:
  assumes "calm w"
  shows "\<exists>row w'. GetOrCreateTarget w t tool pid = (Inr (target_id row), w')
           \<and> calm w' \<and> programs w' = programs w \<and> recon_data w' = recon_data w
           \<and> console w' = console w
           \<and> target_row_of pid t w' = Some row
           \<and> (target_row_of pid t w \<noteq> None \<longrightarrow> targets w' = targets w)
           \<and> (\<exists>new. targets w' = targets w @ new \<and> length new \<le> 1)"
proof (cases "target_row_of pid t w")
  case (Some r)
  let ?v = "w\<lparr>clock := Suc (clock w), schedule := tl (schedule w)\<rparr>"
  have "GetOrCreateTarget w t tool pid = (Inr (target_id r), ?v)"
    using assms Some by (intro GetOrCreateTarget_found calm_next_turn) (simp_all add: calm_def)
  moreover have "calm ?v" using assms by (simp add: calm_def)
  moreover have "target_row_of pid t ?v = Some r" using Some by (simp add: target_row_of_def)
  moreover have "targets ?v = targets w @ []" by simp
  ultimately show ?thesis by force
next
  case None
  from GetOrCreateTarget_new [OF assms None, of tool] obtain row w' where n:
    "GetOrCreateTarget w t tool pid = (Inr (target_id row), w')" "calm w'"
    "programs w' = programs w" "recon_data w' = recon_data w" "console w' = console w"
    "targets w' = targets w @ [row]" "target_target row = t" "target_program_id row = pid"
    by blast
  have "target_row_of pid t w' = Some row"
    using None n(6,7,8) by (simp add: target_row_of_def find_snoc)
  moreover have "\<exists>new. targets w' = targets w @ new \<and> length new \<le> 1"
    using n(6) by force
  ultimately show ?thesis using n(1-5) None by blast
qed

lemma target_row_of_mono:
  assumes "targets w' = targets w @ new" "target_row_of p s w \<noteq> None"
  shows "target_row_of p s w' = target_row_of p s w"
  using assms by (auto simp: target_row_of_def find_app split: option.splits)

lemma process_target_calm:
  assumes "calm w"
  shows "\<exists>w'. process_target tool pid (w, c) t = (w', c + 1)
           \<and> calm w' \<and> programs w' = programs w
           \<and> target_row_of pid t w' \<noteq> None
           \<and> (target_row_of pid t w \<noteq> None \<longrightarrow> targets w' = targets w)
           \<and> (\<exists>new. targets w' = targets w @ new \<and> length new \<le> 1)
           \<and> map recon_text (recon_data w') = map recon_text (recon_data w) @ [t]"
proof -
  from GetOrCreateTarget_calm [OF assms, of t tool pid] obtain row w1 where g:
    "GetOrCreateTarget w t tool pid = (Inr (target_id row), w1)" "calm w1"
    "programs w1 = programs w" "recon_data w1 = recon_data w"
    "target_row_of pid t w1 = Some row"
    "target_row_of pid t w \<noteq> None \<longrightarrow> targets w1 = targets w"
    "\<exists>new. targets w1 = targets w @ new \<and> length new \<le> 1"
    by blast
  from AddReconData_calm [OF g(2), of "target_id row" tool t "''Discovered via '' @ tool"]
  obtain r w2 where a:
    "AddReconData w1 (target_id row) tool t (''Discovered via '' @ tool) = (None, w2)"
    "calm w2" "programs w2 = programs w1" "targets w2 = targets w1"
    "recon_data w2 = recon_data w1 @ [r]" "recon_text r = t"
    by blast
  let ?w' = "say (Target_done t) w2"
  have "process_target tool pid (w, c) t = (?w', c + 1)"
    using g(1) a(1) by (simp add: process_target_def)
  moreover have "calm ?w'" using a(2) by (simp add: calm_say)
  moreover have "programs ?w' = programs w" using a(3) g(3) by (simp add: say_def)
  moreover have tg: "targets ?w' = targets w1" using a(4) by (simp add: say_def)
  moreover have "target_row_of pid t ?w' \<noteq> None"
    using g(5) tg by (simp add: target_row_of_def)
  moreover have "map recon_text (recon_data ?w') = map recon_text (recon_data w) @ [t]"
    using a(5,6) g(4) by (simp add: say_def)
  ultimately show ?thesis using g(6,7) by auto
qed

lemma foldl_process_target_calm:
  "calm w \<Longrightarrow>
   \<exists>w'. foldl (process_target tool pid) (w, c) ts = (w', c + length ts)
     \<and> calm w' \<and> programs w' = programs w
     \<and> (\<forall>t \<in> set ts. target_row_of pid t w' \<noteq> None)
     \<and> ((\<forall>t \<in> set ts. target_row_of pid t w \<noteq> None) \<longrightarrow> targets w' = targets w)
     \<and> (\<exists>new. targets w' = targets w @ new \<and> length new \<le> length ts)
     \<and> map recon_text (recon_data w') = map recon_text (recon_data w) @ ts"
proof (induction ts arbitrary: w c)
  case Nil
  then show ?case by simp
next
  case (Cons t ts)
  from process_target_calm [OF Cons.prems, of tool pid c t] obtain w1 where s:
    "process_target tool pid (w, c) t = (w1, c + 1)" "calm w1" "programs w1 = programs w"
    "target_row_of pid t w1 \<noteq> None"
    "target_row_of pid t w \<noteq> None \<longrightarrow> targets w1 = targets w"
    "\<exists>new. targets w1 = targets w @ new \<and> length new \<le> 1"
    "map recon_text (recon_data w1) = map recon_text (recon_data w) @ [t]"
    by blast
  from Cons.IH [OF s(2), of "c + 1"] obtain w' where r:
    "foldl (process_target tool pid) (w1, c + 1) ts = (w', c + 1 + length ts)"
    "calm w'" "programs w' = programs w1"
    "\<forall>t \<in> set ts. target_row_of pid t w' \<noteq> None"
    "(\<forall>t \<in> set ts. target_row_of pid t w1 \<noteq> None) \<longrightarrow> targets w' = targets w1"
    "\<exists>new. targets w' = targets w1 @ new \<and> length new \<le> length ts"
    "map recon_text (recon_data w') = map recon_text (recon_data w1) @ ts"
    by blast
  obtain n1 where n1: "targets w1 = targets w @ n1" "length n1 \<le> 1" using s(6) by blast
  obtain n2 where n2: "targets w' = targets w1 @ n2" "length n2 \<le> length ts" using r(6) by blast
  have run: "foldl (process_target tool pid) (w, c) (t # ts) = (w', c + length (t # ts))"
    using s(1) r(1) by simp
  have head: "target_row_of pid t w' \<noteq> None"
    using target_row_of_mono [OF n2(1) s(4)] s(4) by simp
  have all: "\<forall>x \<in> set (t # ts). target_row_of pid x w' \<noteq> None"
    using head r(4) by simp
  have same: "(\<forall>x \<in> set (t # ts). target_row_of pid x w \<noteq> None) \<longrightarrow> targets w' = targets w"
  proof
    assume h: "\<forall>x \<in> set (t # ts). target_row_of pid x w \<noteq> None"
    then have t1: "targets w1 = targets w" using s(5) by simp
    then have "\<forall>x \<in> set ts. target_row_of pid x w1 \<noteq> None"
      using h by (simp add: target_row_of_def)
    with r(5) t1 show "targets w' = targets w" by simp
  qed
  have grow: "\<exists>new. targets w' = targets w @ new \<and> length new \<le> length (t # ts)"
  proof -
    have "targets w' = targets w @ (n1 @ n2)" using n1(1) n2(1) by simp
    moreover have "length (n1 @ n2) \<le> length (t # ts)" using n1(2) n2(2) by simp
    ultimately show ?thesis by blast
  qed
  have obs: "map recon_text (recon_data w') = map recon_text (recon_data w) @ (t # ts)"
    using s(7) r(7) by simp
  from run r(2) r(3) s(3) all same grow obs show ?case by auto
qed

lemma program_row_of_mono:
  assumes "programs w' = programs w @ new" "program_row_of n w \<noteq> None"
  shows "program_row_of n w' = program_row_of n w"
  using assms by (auto simp: program_row_of_def find_app split: option.splits)

lemma GetOrCreateProgram_calm:
  assumes "calm w"
  shows "\<exists>row w'. GetOrCreateProgram w d = (Inr (program_id row), w')
           \<and> calm w' \<and> targets w' = targets w \<and> recon_data w' = recon_data w
           \<and> program_row_of (ExtractDomain d) w' = Some row
           \<and> (\<forall>r. program_row_of (ExtractDomain d) w = Some r \<longrightarrow> row = r \<and> programs w' = programs w)
           \<and> (\<exists>new. programs w' = programs w @ new \<and> length new \<le> 1)"
proof (cases "program_row_of (ExtractDomain d) w")
  case (Some r)
  let ?v = "w\<lparr>clock := Suc (clock w), schedule := tl (schedule w)\<rparr>"
  let ?w' = "say (Using_existing_program (ExtractDomain d) (program_id r)) ?v"
  have "GetOrCreateProgram w d = (Inr (program_id r), ?w')"
    using assms Some by (intro GetOrCreateProgram_found calm_next_turn) (simp_all add: calm_def)
  moreover have "calm ?w'" using assms by (simp add: calm_def say_def)
  moreover have "program_row_of (ExtractDomain d) ?w' = Some r"
    using Some by (simp add: program_row_of_def say_def)
  moreover have "programs ?w' = programs w @ []" "targets ?w' = targets w"
    "recon_data ?w' = recon_data w" by (simp_all add: say_def)
  ultimately show ?thesis using Some by force
next
  case None
  from GetOrCreateProgram_new [OF assms None] obtain row w' where n:
    "GetOrCreateProgram w d = (Inr (program_id row), w')" "calm w'"
    "targets w' = targets w" "recon_data w' = recon_data w"
    "programs w' = programs w @ [row]" "program_name row = ExtractDomain d"
    by blast
  have "program_row_of (ExtractDomain d) w' = Some row"
    using None n(5,6) by (simp add: program_row_of_def find_snoc)
  moreover have "\<exists>new. programs w' = programs w @ new \<and> length new \<le> 1"
    using n(5) by force
  ultimately show ?thesis using n(1-4) None by auto
qed

lemma process_targets_calm:
  assumes "calm w"
  shows "\<exists>w'. process_targets tool pid w ts = (w', length ts)
     \<and> calm w' \<and> programs w' = programs w
     \<and> (\<forall>t \<in> set ts. target_row_of pid t w' \<noteq> None)
     \<and> ((\<forall>t \<in> set ts. target_row_of pid t w \<noteq> None) \<longrightarrow> targets w' = targets w)
     \<and> (\<exists>new. targets w' = targets w @ new \<and> length new \<le> length ts)
     \<and> map recon_text (recon_data w') = map recon_text (recon_data w) @ ts"
  using foldl_process_target_calm [OF assms, of tool pid 0 ts]
  by (simp add: process_targets_def)

lemma ingest_calm:
  assumes "calm w" "read_stdin lines = (tgts, first)"
  shows "\<exists>code w'. ingest tool lines w = (code, w') \<and> calm w'
     \<and> map recon_text (recon_data w') = map recon_text (recon_data w) @ tgts
     \<and> (\<exists>np. programs w' = programs w @ np \<and> length np \<le> 1)
     \<and> (\<exists>nt. targets w' = targets w @ nt \<and> length nt \<le> length tgts)
     \<and> (tgts = [] \<longrightarrow> programs w' = programs w \<and> targets w' = targets w)
     \<and> (tgts \<noteq> [] \<longrightarrow> code = 0
          \<and> (\<exists>row. program_row_of (ExtractDomain (main_domain first)) w' = Some row
                \<and> (\<forall>t \<in> set tgts. target_row_of (program_id row) t w' \<noteq> None)))
     \<and> (\<forall>row. program_row_of (ExtractDomain (main_domain first)) w = Some row
               \<and> (\<forall>t \<in> set tgts. target_row_of (program_id row) t w \<noteq> None)
            \<longrightarrow> programs w' = programs w \<and> targets w' = targets w)"
proof (cases "tgts = []")
  case True
  let ?w' = "say No_valid_targets (say Reading_from_stdin w)"
  have "ingest tool lines w = (1, ?w')"
    using True assms(2) by (simp add: ingest_empty)
  moreover have "calm ?w'" using assms(1) by (simp add: calm_say)
  moreover have "programs ?w' = programs w @ []" "targets ?w' = targets w @ []"
    "recon_data ?w' = recon_data w" by (simp_all add: say_def)
  ultimately show ?thesis using True by force
next
  case False
  let ?org = "ExtractDomain (main_domain first)"
  define wa where "wa = say (Extracted_domain (main_domain first))
      (say (Found_targets (length tgts)) (say Reading_from_stdin w))"
  have wa: "calm wa" "programs wa = programs w" "targets wa = targets w"
    "recon_data wa = recon_data w"
    using assms(1) by (simp_all add: wa_def calm_say) (simp_all add: say_def)
  from GetOrCreateProgram_calm [OF wa(1), of "main_domain first"] obtain row w1 where g:
    "GetOrCreateProgram wa (main_domain first) = (Inr (program_id row), w1)" "calm w1"
    "targets w1 = targets wa" "recon_data w1 = recon_data wa"
    "program_row_of ?org w1 = Some row"
    "\<forall>r. program_row_of ?org wa = Some r \<longrightarrow> row = r \<and> programs w1 = programs wa"
    "\<exists>new. programs w1 = programs wa @ new \<and> length new \<le> 1"
    by blast
  from process_targets_calm [OF g(2), of tool "program_id row" tgts] obtain w2 where p:
    "process_targets tool (program_id row) w1 tgts = (w2, length tgts)" "calm w2"
    "programs w2 = programs w1"
    "\<forall>t \<in> set tgts. target_row_of (program_id row) t w2 \<noteq> None"
    "(\<forall>t \<in> set tgts. target_row_of (program_id row) t w1 \<noteq> None) \<longrightarrow> targets w2 = targets w1"
    "\<exists>new. targets w2 = targets w1 @ new \<and> length new \<le> length tgts"
    "map recon_text (recon_data w2) = map recon_text (recon_data w1) @ tgts"
    by blast
  let ?w' = "say Next_hint (say (Completed (length tgts) (length tgts) (program_id row)) w2)"
  have same: "programs ?w' = programs w2" "targets ?w' = targets w2"
    "recon_data ?w' = recon_data w2" by (simp_all add: say_def)
  have run: "ingest tool lines w = (0, ?w')"
    using False assms(2) g(1) p(1) by (simp add: ingest_def Let_def wa_def)
  have c: "calm ?w'" using p(2) by (simp add: calm_say)
  have obs: "map recon_text (recon_data ?w') = map recon_text (recon_data w) @ tgts"
    using same(3) p(7) g(4) wa(4) by simp
  have np: "\<exists>np. programs ?w' = programs w @ np \<and> length np \<le> 1"
    using same(1) p(3) g(7) wa(2) by simp
  have nt: "\<exists>nt. targets ?w' = targets w @ nt \<and> length nt \<le> length tgts"
    using same(2) p(6) g(3) wa(3) by simp
  have found: "program_row_of ?org ?w' = Some row"
    using g(5) p(3) same(1) by (simp add: program_row_of_def)
  have tg: "\<forall>t \<in> set tgts. target_row_of (program_id row) t ?w' \<noteq> None"
    using p(4) same(2) by (simp add: target_row_of_def)
  have again: "\<forall>r. program_row_of ?org w = Some r
               \<and> (\<forall>t \<in> set tgts. target_row_of (program_id r) t w \<noteq> None)
            \<longrightarrow> programs ?w' = programs w \<and> targets ?w' = targets w"
  proof (intro allI impI)
    fix r
    assume h: "program_row_of ?org w = Some r
               \<and> (\<forall>t \<in> set tgts. target_row_of (program_id r) t w \<noteq> None)"
    then have "program_row_of ?org wa = Some r" using wa(2) by (simp add: program_row_of_def)
    with g(6) have rr: "row = r" "programs w1 = programs wa" by simp_all
    have "\<forall>t \<in> set tgts. target_row_of (program_id row) t w1 \<noteq> None"
      using h rr(1) g(3) wa(3) by (simp add: target_row_of_def)
    with p(5) have "targets w2 = targets w1" by simp
    then show "programs ?w' = programs w \<and> targets ?w' = targets w"
      using same p(3) rr(2) wa(2,3) g(3) by simp
  qed
  from run c obs np nt found tg again False show ?thesis by blast
qed

lemma single_target_row:
  assumes "targets w = nt" "length nt \<le> 1" "target_row_of pid l w \<noteq> None"
  shows "map target_target (targets w) = [l]"
proof -
  from assms(3) obtain r where r: "find (\<lambda>r. target_target r = l \<and> target_program_id r = pid) (targets w) = Some r"
    by (auto simp: target_row_of_def)
  then have "r \<in> set (targets w)" "target_target r = l"
    by (auto simp: find_Some_iff)
  moreover from assms(1,2) have "length (targets w) \<le> 1" by simp
  ultimately show ?thesis
    by (cases "targets w") auto
qed

lemma single_program_row:
  assumes "programs w = np" "length np \<le> 1" "program_row_of n w \<noteq> None"
  shows "length (programs w) = 1"
proof -
  from assms(3) have "programs w \<noteq> []"
    by (auto simp: program_row_of_def)
  with assms(1,2) show ?thesis by (cases "programs w") auto
qed

section \<open>The loop over the targets\<close>





section \<open>A rival between lookup and insert\<close>

lemma GetOrCreateProgram_race:
  assumes "db_file w = Schema_ready" "program_row_of (ExtractDomain d) w = None"
    "schedule w = Calm # Rival (Rival_program (ExtractDomain d) sc) # rest"
  shows "\<exists>w' r. GetOrCreateProgram w d = (Inl (Failed_to_create_program ErrConstraint), w')
           \<and> schedule w' = rest \<and> console w' = console w
           \<and> programs w' = programs w @ [r]
           \<and> program_name r = ExtractDomain d \<and> program_scope r = Some sc
           \<and> program_row_of (ExtractDomain d) w' = Some r"
proof -
  let ?name = "ExtractDomain d"
  let ?v = "w\<lparr>clock := Suc (clock w), schedule := Rival (Rival_program ?name sc) # rest\<rparr>"
  let ?u = "?v\<lparr>clock := Suc (clock ?v), schedule := rest\<rparr>"
  define r where "r = \<lparr>program_id = last_program_id w + 1, program_name = ?name,
      program_url = None, program_scope = Some sc, program_out_of_scope = None,
      program_bounty_notes = None, program_created_at = clock ?u\<rparr>"
  define w' where "w' = ?u\<lparr>programs := programs w @ [r], last_program_id := last_program_id w + 1\<rparr>"
  have b: "begin_statement w = (Calm, ?v)"
    using assms(3) by (simp add: begin_statement_def next_turn_def)
  have q: "query_program_id ?name w = (Inl ErrNoRows, ?v)"
    using b assms(1,2) by (simp add: query_program_id_def driver_fails_def program_row_of_def)
  have none: "program_row_of ?name ?u = None"
    using assms(2) by (simp add: program_row_of_def)
  have rv: "run_rival (Rival_program ?name sc) ?u = w'"
    using none by (simp add: insert_program_def Let_def r_def w'_def)
  have b': "begin_statement ?v = (Rival (Rival_program ?name sc), w')"
    using rv by (simp add: begin_statement_def next_turn_def)
  have taken: "program_row_of ?name w' = Some r"
    using assms(2) by (simp add: w'_def program_row_of_def find_snoc r_def)
  have x: "exec_insert_program ?name (scope_pattern d) ?v = (Inl ErrConstraint, w')"
    using b' taken assms(1)
    by (simp add: exec_insert_program_def driver_fails_def insert_program_def w'_def)
  have "GetOrCreateProgram w d = (Inl (Failed_to_create_program ErrConstraint), w')"
    using q x by (simp add: GetOrCreateProgram_def)
  moreover have "schedule w' = rest" "console w' = console w" "programs w' = programs w @ [r]"
    by (simp_all add: w'_def)
  moreover have "program_name r = ?name" "program_scope r = Some sc"
    by (simp_all add: r_def)
  ultimately show ?thesis using taken by blast
qed

lemma GetOrCreateTarget_race:
  assumes "db_file w = Schema_ready" "target_row_of pid t w = None"
    "schedule w = Calm # Rival (Rival_target pid t ty src) # rest"
  shows "\<exists>w' r. GetOrCreateTarget w t tool pid = (Inl (Failed_to_create_target ErrConstraint), w')
           \<and> schedule w' = rest \<and> console w' = console w
           \<and> targets w' = targets w @ [r]
           \<and> target_target r = t \<and> target_program_id r = pid
           \<and> target_row_of pid t w' = Some r"
proof -
  let ?v = "w\<lparr>clock := Suc (clock w), schedule := Rival (Rival_target pid t ty src) # rest\<rparr>"
  let ?u = "?v\<lparr>clock := Suc (clock ?v), schedule := rest\<rparr>"
  define r where "r = \<lparr>target_id = last_target_id w + 1, target_program_id = pid,
      target_target = t, target_type = Some ty, target_source = Some src,
      target_alive = False, target_last_checked = Some (clock ?u), target_tested = False,
      target_tested_date = None, target_test_notes = None, target_notes = None,
      target_created_at = clock ?u\<rparr>"
  define w' where "w' = ?u\<lparr>targets := targets w @ [r], last_target_id := last_target_id w + 1\<rparr>"
  have b: "begin_statement w = (Calm, ?v)"
    using assms(3) by (simp add: begin_statement_def next_turn_def)
  have q: "query_target_id t pid w = (Inl ErrNoRows, ?v)"
    using b assms(1,2) by (simp add: query_target_id_def driver_fails_def target_row_of_def)
  have none: "target_row_of pid t ?u = None"
    using assms(2) by (simp add: target_row_of_def)
  have rv: "run_rival (Rival_target pid t ty src) ?u = w'"
    using none by (simp add: insert_target_def Let_def r_def w'_def)
  have b': "begin_statement ?v = (Rival (Rival_target pid t ty src), w')"
    using rv by (simp add: begin_statement_def next_turn_def)
  have taken: "target_row_of pid t w' = Some r"
    using assms(2) by (simp add: w'_def target_row_of_def find_snoc r_def)
  have x: "exec_insert_target pid t (targetType t) tool (clock ?v) ?v = (Inl ErrConstraint, w')"
    using b' taken assms(1)
    by (simp add: exec_insert_target_def driver_fails_def insert_target_def w'_def)
  have "GetOrCreateTarget w t tool pid = (Inl (Failed_to_create_target ErrConstraint), w')"
    using q x by (simp add: GetOrCreateTarget_def)
  moreover have "schedule w' = rest" "console w' = console w" "targets w' = targets w @ [r]"
    by (simp_all add: w'_def)
  moreover have "target_target r = t" "target_program_id r = pid"
    by (simp_all add: r_def)
  ultimately show ?thesis using taken by blast
qed

lemma ingest_program_error:
  assumes "read_stdin lines = (tgts, first)" "tgts \<noteq> []"
    "GetOrCreateProgram (say (Extracted_domain (main_domain first))
        (say (Found_targets (length tgts)) (say Reading_from_stdin w))) (main_domain first)
      = (Inl e, w1)"
  shows "ingest tool lines w = (1, say (Fatal e) w1)"
  using assms by (simp add: ingest_def Let_def)

lemma process_target_error:
  assumes "GetOrCreateTarget w t tool pid = (Inl e, w1)"
  shows "process_target tool pid (w, c) t = (say (Error_with_target t e) w1, c)"
  using assms by (simp add: process_target_def)

section \<open>Bootstrap and exit status\<close>

lemma EnsureDBExists_effect:
  assumes "EnsureDBExists env w = (r, w')"
  shows "clock w' = clock w \<and> schedule w' = schedule w
    \<and> set (programs w') \<subseteq> set (programs w) \<and> set (targets w') \<subseteq> set (targets w)
    \<and> set (recon_data w') \<subseteq> set (recon_data w)
    \<and> (\<exists>msgs. console w' = console w @ msgs \<and> filter is_done msgs = [])
    \<and> (r = None \<longleftrightarrow>
          \<not> mkdir_fails env
          \<and> (db_file w \<noteq> Absent
               \<or> (\<not> create_fails env \<and> \<not> open_fails env \<and> \<not> ping_fails env
                   \<and> \<not> schema_fails env)))
    \<and> (r = None \<longrightarrow> db_file w' = (if db_file w = Absent then Schema_ready else db_file w))
    \<and> (db_file w \<noteq> Absent \<longrightarrow> w' = w)"
proof (cases "mkdir_fails env \<or> db_file w \<noteq> Absent")
  case True
  with assms have "w' = w" "r = (if mkdir_fails env then Some Failed_to_create_directory else None)"
    by (auto simp: EnsureDBExists_def split: if_splits)
  with True show ?thesis by auto
next
  case False
  then have f: "\<not> mkdir_fails env" "db_file w = Absent" by simp_all
  let ?w1 = "say Database_not_found w"
  let ?w2 = "fresh_tables (?w1\<lparr>db_file := No_schema\<rparr>)"
  let ?w3 = "say Initializing_schema ?w2"
  let ?w4 = "say Database_created (?w3\<lparr>db_file := Schema_ready\<rparr>)"
  have cons: "console ?w1 = console w @ [Database_not_found]"
    "console ?w2 = console w @ [Database_not_found]"
    "console ?w3 = console w @ [Database_not_found, Initializing_schema]"
    "console ?w4 = console w @ [Database_not_found, Initializing_schema, Database_created]"
    by (simp_all add: say_def fresh_tables_def)
  have rest: "\<And>x. x \<in> {?w1, ?w2, ?w3, ?w4} \<Longrightarrow>
      clock x = clock w \<and> schedule x = schedule w
      \<and> set (programs x) \<subseteq> set (programs w) \<and> set (targets x) \<subseteq> set (targets w)
      \<and> set (recon_data x) \<subseteq> set (recon_data w)"
    by (auto simp: say_def fresh_tables_def)
  consider (c) "create_fails env"
    | (o) "\<not> create_fails env" "open_fails env"
    | (p) "\<not> create_fails env" "\<not> open_fails env" "ping_fails env"
    | (s) "\<not> create_fails env" "\<not> open_fails env" "\<not> ping_fails env" "schema_fails env"
    | (ok) "\<not> create_fails env" "\<not> open_fails env" "\<not> ping_fails env" "\<not> schema_fails env"
    by blast
  then show ?thesis
  proof cases
    case c
    with f assms have "w' = ?w1" "r = Some Failed_to_create_database_file"
      by (simp_all add: EnsureDBExists_def Let_def)
    with rest [of ?w1] cons(1) f c show ?thesis by auto
  next
    case o
    with f assms have "w' = ?w2" "r = Some Failed_to_open_database"
      by (simp_all add: EnsureDBExists_def Let_def)
    with rest [of ?w2] cons(2) f o show ?thesis by auto
  next
    case p
    with f assms have "w' = ?w2" "r = Some Database_ping_failed"
      by (simp_all add: EnsureDBExists_def Let_def)
    with rest [of ?w2] cons(2) f p show ?thesis by auto
  next
    case s
    with f assms have "w' = ?w3" "r = Some Failed_to_initialize_schema"
      by (simp_all add: EnsureDBExists_def Let_def)
    with rest [of ?w3] cons(3) f s show ?thesis by auto
  next
    case ok
    with f assms have *: "w' = ?w4" "r = None"
      by (simp_all add: EnsureDBExists_def Let_def)
    have "db_file ?w4 = Schema_ready" by (simp add: say_def)
    with * rest [of ?w4] cons(4) f ok show ?thesis by auto
  qed
qed


lemma EnsureDBExists_console:
  assumes "EnsureDBExists env w = (r, w')"
  shows "\<exists>msgs. console w' = console w @ msgs \<and> filter is_done msgs = []"
  using EnsureDBExists_effect [OF assms] by (elim conjE)

lemma EnsureDBExists_result:
  assumes "EnsureDBExists env w = (r, w')"
  shows "r = None \<longleftrightarrow>
          \<not> mkdir_fails env
          \<and> (db_file w \<noteq> Absent
               \<or> (\<not> create_fails env \<and> \<not> open_fails env \<and> \<not> ping_fails env
                   \<and> \<not> schema_fails env))"
    and "r = None \<longrightarrow> db_file w' = (if db_file w = Absent then Schema_ready else db_file w)"
proof -
  note x = EnsureDBExists_effect [OF assms]
  from x show "r = None \<longleftrightarrow>
          \<not> mkdir_fails env
          \<and> (db_file w \<noteq> Absent
               \<or> (\<not> create_fails env \<and> \<not> open_fails env \<and> \<not> ping_fails env
                   \<and> \<not> schema_fails env))"
    by (elim conjE)
  from x show "r = None \<longrightarrow> db_file w' = (if db_file w = Absent then Schema_ready else db_file w)"
    by (elim conjE)
qed

lemma main_terminal:
  assumes "stdin_mode env = Some mode" "\<not> HasStdinData mode"
    "EnsureDBExists env (say Ensuring_database_exists (say No_input_provided w)) = (r, w2)"
  shows "main env w =
     (case r of
        Some err \<Rightarrow> (1, say (Fatal err) w2)
      | None \<Rightarrow> (0, say Usage_hint (say Usage_hint (say Database_is_ready w2))))"
  using assms by (simp add: main_def Let_def split: option.splits)









section \<open>Claims\<close>

text \<open>
  C1. Classification applies five ordered rules, the first matching one deciding: exactly one
  dot and neither a slash nor a colon gives \<open>domain\<close>; more than one dot and neither a slash
  nor a colon gives \<open>subdomain\<close>; otherwise a string containing \<open>://\<close> gives \<open>url\<close>; otherwise a
  string containing a colon gives \<open>ip_port\<close>; otherwise \<open>unknown\<close>. The five examples of the
  specification classify as it says, and every string containing \<open>://\<close> is a \<open>url\<close>, never a
  \<open>subdomain\<close>, however many dots it has.
\<close>

theorem C1_classification_rules:
  "targetType s =
     (if count_list s (CHR ''.'') = 1 \<and> CHR ''/'' \<notin> set s \<and> CHR '':'' \<notin> set s then ''domain''
      else if count_list s (CHR ''.'') > 1 \<and> CHR ''/'' \<notin> set s \<and> CHR '':'' \<notin> set s
        then ''subdomain''
      else if sublist ''://'' s then ''url''
      else if CHR '':'' \<in> set s then ''ip_port''
      else ''unknown'')
   \<and> targetType ''example.com'' = ''domain''
   \<and> targetType ''api.example.com'' = ''subdomain''
   \<and> targetType ''https://example.com/path'' = ''url''
   \<and> targetType ''10.0.0.1:8080'' = ''ip_port''
   \<and> targetType ''randomtoken'' = ''unknown''
   \<and> targetType ''https://a.b.com'' = ''url''
   \<and> (sublist ''://'' s \<longrightarrow> targetType s = ''url'')"
proof -
  have rules: "targetType s =
     (if count_list s (CHR ''.'') = 1 \<and> CHR ''/'' \<notin> set s \<and> CHR '':'' \<notin> set s then ''domain''
      else if count_list s (CHR ''.'') > 1 \<and> CHR ''/'' \<notin> set s \<and> CHR '':'' \<notin> set s
        then ''subdomain''
      else if sublist ''://'' s then ''url''
      else if CHR '':'' \<in> set s then ''ip_port''
      else ''unknown'')"
  proof -
    have slash: "Contains s ''/'' \<longleftrightarrow> CHR ''/'' \<in> set s"
      by (rule Contains_byte_iff)
    have colon: "Contains s '':'' \<longleftrightarrow> CHR '':'' \<in> set s"
      by (rule Contains_byte_iff)
    have sep: "Contains s ''://'' \<longleftrightarrow> sublist ''://'' s"
      by (rule Contains_iff_sublist)
    show ?thesis
      unfolding targetType_def Count_byte_eq_count_list slash colon sep by (rule refl)
  qed
  have e1: "targetType ''example.com'' = ''domain''" by (simp add: targetType_def)
  have e2: "targetType ''api.example.com'' = ''subdomain''" by (simp add: targetType_def)
  have e3: "targetType ''https://example.com/path'' = ''url''" by (simp add: targetType_def)
  have e4: "targetType ''10.0.0.1:8080'' = ''ip_port''" by (simp add: targetType_def)
  have e5: "targetType ''randomtoken'' = ''unknown''" by (simp add: targetType_def)
  have e6: "targetType ''https://a.b.com'' = ''url''" by (simp add: targetType_def)
  have url: "sublist ''://'' s \<longrightarrow> targetType s = ''url''"
    using sublist_scheme_sep_colon [of s] by (simp add: rules)
  from rules e1 e2 e3 e4 e5 e6 url show ?thesis by blast
qed

text \<open>
  C1 at \<open>ftp://a.b.c\<close>: it contains \<open>://\<close> and three dots, and is a \<open>url\<close>.
\<close>

theorem C1_classification_rules_witness:
  "sublist ''://'' ''ftp://a.b.c'' \<and> targetType ''ftp://a.b.c'' = ''url''"
proof -
  have h: "sublist ''://'' ''ftp://a.b.c''"
    by (simp add: Contains_iff_sublist [symmetric])
  with C1_classification_rules [of "''ftp://a.b.c''"] show ?thesis by blast
qed

text \<open>
  C2. On a calm database, a second run on the same lines creates no program row and no target
  row, and appends exactly one observation per non-blank line, carrying that line. Starting
  from empty tables with one non-blank line \<open>l\<close>, the two runs leave one program, one target
  row (for \<open>l\<close>) and two observations of \<open>l\<close>.
\<close>

theorem C2_rerun_adds_only_observations:
  assumes "schedule w = []" and "db_file w = Schema_ready"
    and "ingest tool lines w = (c1, w1)" and "ingest tool lines w1 = (c2, w2)"
  shows "programs w2 = programs w1 \<and> targets w2 = targets w1
     \<and> prefix (recon_data w1) (recon_data w2)
     \<and> length (recon_data w2) = length (recon_data w1) + length (fst (read_stdin lines))
     \<and> map recon_text (recon_data w2) = map recon_text (recon_data w1) @ fst (read_stdin lines)
     \<and> (programs w = [] \<and> targets w = [] \<and> recon_data w = [] \<and> fst (read_stdin lines) = [l]
          \<longrightarrow> length (programs w2) = 1 \<and> map target_target (targets w2) = [l]
              \<and> map recon_text (recon_data w2) = [l, l])"
proof -
  obtain tgts first where rd: "read_stdin lines = (tgts, first)"
    by (cases "read_stdin lines")
  let ?org = "ExtractDomain (main_domain first)"
  have cw: "calm w" using assms(1,2) by (simp add: calm_def)
  from ingest_calm [OF cw rd, of tool] assms(3) have one:
    "calm w1"
    "map recon_text (recon_data w1) = map recon_text (recon_data w) @ tgts"
    "\<exists>np. programs w1 = programs w @ np \<and> length np \<le> 1"
    "\<exists>nt. targets w1 = targets w @ nt \<and> length nt \<le> length tgts"
    "tgts \<noteq> [] \<longrightarrow> (\<exists>row. program_row_of ?org w1 = Some row
                \<and> (\<forall>t \<in> set tgts. target_row_of (program_id row) t w1 \<noteq> None))"
    by auto
  from ingest_calm [OF one(1) rd, of tool] assms(4) have two:
    "map recon_text (recon_data w2) = map recon_text (recon_data w1) @ tgts"
    "tgts = [] \<longrightarrow> programs w2 = programs w1 \<and> targets w2 = targets w1"
    "\<forall>row. program_row_of ?org w1 = Some row
               \<and> (\<forall>t \<in> set tgts. target_row_of (program_id row) t w1 \<noteq> None)
            \<longrightarrow> programs w2 = programs w1 \<and> targets w2 = targets w1"
    by auto
  have same: "programs w2 = programs w1 \<and> targets w2 = targets w1"
  proof (cases "tgts = []")
    case True
    with two(2) show ?thesis by simp
  next
    case False
    with one(5) obtain row where "program_row_of ?org w1 = Some row"
      "\<forall>t \<in> set tgts. target_row_of (program_id row) t w1 \<noteq> None" by blast
    with two(3) show ?thesis by blast
  qed
  have pre: "prefix (recon_data w1) (recon_data w2)"
    using ingest_report [OF assms(4)] by (simp add: extends_def)
  have len: "length (recon_data w2) = length (recon_data w1) + length tgts"
  proof -
    have "length (map recon_text (recon_data w2))
        = length (map recon_text (recon_data w1) @ tgts)" by (simp only: two(1))
    then show ?thesis by simp
  qed
  have single: "programs w = [] \<and> targets w = [] \<and> recon_data w = [] \<and> tgts = [l]
          \<longrightarrow> length (programs w2) = 1 \<and> map target_target (targets w2) = [l]
              \<and> map recon_text (recon_data w2) = [l, l]"
  proof
    assume h: "programs w = [] \<and> targets w = [] \<and> recon_data w = [] \<and> tgts = [l]"
    then have ne: "tgts \<noteq> []" by simp
    with one(5) obtain row where row: "program_row_of ?org w1 = Some row"
      "\<forall>t \<in> set tgts. target_row_of (program_id row) t w1 \<noteq> None" by blast
    from one(3) h obtain np where np: "programs w1 = np" "length np \<le> 1" by auto
    from one(4) h obtain nt where nt: "targets w1 = nt" "length nt \<le> 1" by auto
    have "length (programs w1) = 1"
      by (rule single_program_row [OF np, of ?org]) (simp add: row(1))
    moreover have "map target_target (targets w1) = [l]"
      by (rule single_target_row [OF nt, of "program_id row" l]) (use row(2) h in simp)
    moreover have "map recon_text (recon_data w2) = [l, l]"
      using one(2) two(1) h by simp
    ultimately show "length (programs w2) = 1 \<and> map target_target (targets w2) = [l]
              \<and> map recon_text (recon_data w2) = [l, l]"
      using same by simp
  qed
  from same pre len two(1) single rd show ?thesis by simp
qed

text \<open>
  C2 on the empty database with the line \<open>example.com\<close>, ingested twice.
\<close>

theorem C2_witness:
  "schedule empty_world = [] \<and> db_file empty_world = Schema_ready
   \<and> programs empty_world = [] \<and> targets empty_world = [] \<and> recon_data empty_world = []
   \<and> fst (read_stdin [''example.com'']) = [''example.com'']
   \<and> programs twice_world = programs once_world \<and> targets twice_world = targets once_world
   \<and> length (programs twice_world) = 1
   \<and> map target_target (targets twice_world) = [''example.com'']
   \<and> map recon_text (recon_data twice_world) = [''example.com'', ''example.com'']"
proof -
  have h: "schedule empty_world = []" "db_file empty_world = Schema_ready"
    "programs empty_world = []" "targets empty_world = []" "recon_data empty_world = []"
    by (simp_all add: empty_world_def)
  have rd: "fst (read_stdin [''example.com'']) = [''example.com'']"
    by code_simp
  have r1: "ingest ''pipeline_auto'' [''example.com''] empty_world
      = (fst (ingest ''pipeline_auto'' [''example.com''] empty_world), once_world)"
    by (simp add: once_world_def)
  have r2: "ingest ''pipeline_auto'' [''example.com''] once_world
      = (fst (ingest ''pipeline_auto'' [''example.com''] once_world), twice_world)"
    by (simp add: twice_world_def)
  note t = C2_rerun_adds_only_observations [OF h(1,2) r1 r2, where l = "''example.com''"]
  from t have a: "programs twice_world = programs once_world" by (elim conjE)
  from t have b: "targets twice_world = targets once_world" by (elim conjE)
  from t have "programs empty_world = [] \<and> targets empty_world = []
      \<and> recon_data empty_world = [] \<and> fst (read_stdin [''example.com'']) = [''example.com'']
    \<longrightarrow> length (programs twice_world) = 1
        \<and> map target_target (targets twice_world) = [''example.com'']
        \<and> map recon_text (recon_data twice_world) = [''example.com'', ''example.com'']"
    by (elim conjE)
  with h(3,4,5) rd have c: "length (programs twice_world) = 1
        \<and> map target_target (targets twice_world) = [''example.com'']
        \<and> map recon_text (recon_data twice_world) = [''example.com'', ''example.com'']"
    by blast
  from h rd a b c show ?thesis by blast
qed

text \<open>
  C3, as stated, fails. When a rival creates the program between the lookup and the insert,
  \<open>GetOrCreateProgram\<close> returns the rejected insert as an error, though the row is now in the
  table, issues no further statement, and \<open>main\<close> ends with status 1 before any target is
  touched. When a rival records the target between the lookup and the insert,
  \<open>GetOrCreateTarget\<close> returns the error, the line is reported as failed and gets no
  observation; being the only line, the run ends with status 1.
\<close>

theorem C3_conflict_reaches_the_caller:
  "fst (GetOrCreateProgram race_world ''example.com'') = Inl (Failed_to_create_program ErrConstraint)
   \<and> map program_name (programs (snd (GetOrCreateProgram race_world ''example.com''))) = [''example'']
   \<and> schedule (snd (GetOrCreateProgram race_world ''example.com'')) = []
   \<and> fst (main (piped [''example.com'']) race_world) = 1
   \<and> targets (snd (main (piped [''example.com'']) race_world)) = []
   \<and> last (console (snd (main (piped [''example.com'']) race_world)))
        = Fatal (Failed_to_create_program ErrConstraint)
   \<and> fst (main (piped [''example.com'']) target_race_world) = 1
   \<and> map target_source (targets (snd (main (piped [''example.com'']) target_race_world)))
        = [Some ''rival'']
   \<and> recon_data (snd (main (piped [''example.com'']) target_race_world)) = []
   \<and> filter (\<lambda>m. report_line m \<noteq> None) (console (snd (main (piped [''example.com'']) target_race_world)))
        = [Error_with_target ''example.com'' (Failed_to_create_target ErrConstraint)]"
  by code_simp

text \<open>
  C3, amended. A uniqueness violation on the insert during resolve-or-create is not recovered:
  no second lookup is made (the two statements of the call are the only ones it issues), and
  the error of the insert is returned to the caller although the row is then in the table.
  \<open>main\<close> treats an error of \<open>GetOrCreateProgram\<close> as fatal (status 1), and an error of
  \<open>GetOrCreateTarget\<close> as the failure of that line alone: it is reported and not counted.
\<close>

theorem C3_conflict_is_returned:
  "(db_file wp = Schema_ready \<and> program_row_of (ExtractDomain d) wp = None
      \<and> schedule wp = Calm # Rival (Rival_program (ExtractDomain d) sc) # rest
    \<longrightarrow> (\<exists>w' r. GetOrCreateProgram wp d = (Inl (Failed_to_create_program ErrConstraint), w')
              \<and> schedule w' = rest \<and> program_row_of (ExtractDomain d) w' = Some r))
   \<and> (db_file wt = Schema_ready \<and> target_row_of pid t wt = None
      \<and> schedule wt = Calm # Rival (Rival_target pid t ty src) # rest'
    \<longrightarrow> (\<exists>w' r. GetOrCreateTarget wt t tool pid = (Inl (Failed_to_create_target ErrConstraint), w')
              \<and> schedule w' = rest' \<and> target_row_of pid t w' = Some r))
   \<and> (read_stdin lines = (tgts, first) \<and> tgts \<noteq> []
      \<and> GetOrCreateProgram (say (Extracted_domain (main_domain first))
            (say (Found_targets (length tgts)) (say Reading_from_stdin v))) (main_domain first)
          = (Inl e, v1)
    \<longrightarrow> ingest tool lines v = (1, say (Fatal e) v1))
   \<and> (GetOrCreateTarget u t' tool pid' = (Inl e', u1)
    \<longrightarrow> process_target tool pid' (u, c) t' = (say (Error_with_target t' e') u1, c))"
proof -
  have a: "db_file wp = Schema_ready \<and> program_row_of (ExtractDomain d) wp = None
      \<and> schedule wp = Calm # Rival (Rival_program (ExtractDomain d) sc) # rest
    \<longrightarrow> (\<exists>w' r. GetOrCreateProgram wp d = (Inl (Failed_to_create_program ErrConstraint), w')
              \<and> schedule w' = rest \<and> program_row_of (ExtractDomain d) w' = Some r)"
    using GetOrCreateProgram_race [of wp d sc rest] by blast
  have b: "db_file wt = Schema_ready \<and> target_row_of pid t wt = None
      \<and> schedule wt = Calm # Rival (Rival_target pid t ty src) # rest'
    \<longrightarrow> (\<exists>w' r. GetOrCreateTarget wt t tool pid = (Inl (Failed_to_create_target ErrConstraint), w')
              \<and> schedule w' = rest' \<and> target_row_of pid t w' = Some r)"
    using GetOrCreateTarget_race [of wt pid t ty src rest' tool] by blast
  from a b ingest_program_error [of lines tgts first v e v1 tool]
    process_target_error [of u t' tool pid' e' u1 c]
  show ?thesis by blast
qed

text \<open>
  C3, amended, on the two races: a rival program \<open>example\<close>, and a rival target
  \<open>example.com\<close> under program 1.
\<close>

theorem C3_witness:
  "(\<exists>w' r. GetOrCreateProgram race_world ''example.com''
              = (Inl (Failed_to_create_program ErrConstraint), w')
            \<and> schedule w' = [] \<and> program_row_of (ExtractDomain ''example.com'') w' = Some r)
   \<and> (\<exists>w' r. GetOrCreateTarget target_clash_world ''example.com'' ''pipeline_auto'' 1
              = (Inl (Failed_to_create_target ErrConstraint), w')
            \<and> schedule w' = [] \<and> target_row_of 1 ''example.com'' w' = Some r)
   \<and> fst (ingest ''pipeline_auto'' [''example.com''] race_world) = 1
   \<and> snd (process_target ''pipeline_auto'' 1 (target_clash_world, 0) ''example.com'') = 0"
proof -
  let ?pw = "say (Extracted_domain (main_domain ''example.com''))
            (say (Found_targets (length [''example.com''])) (say Reading_from_stdin race_world))"
  have hp: "db_file race_world = Schema_ready
      \<and> program_row_of (ExtractDomain ''example.com'') race_world = None
      \<and> schedule race_world
          = Calm # Rival (Rival_program (ExtractDomain ''example.com'') ''*.example.com'') # []"
    by code_simp
  have ht: "db_file target_clash_world = Schema_ready
      \<and> target_row_of 1 ''example.com'' target_clash_world = None
      \<and> schedule target_clash_world
          = Calm # Rival (Rival_target 1 ''example.com'' ''domain'' ''rival'') # []"
    by code_simp
  have rd: "read_stdin [''example.com''] = ([''example.com''], ''example.com'')"
    by code_simp
  have gp: "fst (GetOrCreateProgram ?pw (main_domain ''example.com''))
      = Inl (Failed_to_create_program ErrConstraint)"
    by code_simp
  have hi: "read_stdin [''example.com''] = ([''example.com''], ''example.com'')
      \<and> [''example.com''] \<noteq> []
      \<and> GetOrCreateProgram ?pw (main_domain ''example.com'')
          = (Inl (Failed_to_create_program ErrConstraint),
             snd (GetOrCreateProgram ?pw (main_domain ''example.com'')))"
    using rd gp by (metis list.distinct(1) prod.collapse)
  have gt: "fst (GetOrCreateTarget target_clash_world ''example.com'' ''pipeline_auto'' 1)
      = Inl (Failed_to_create_target ErrConstraint)"
    by code_simp
  have hl: "GetOrCreateTarget target_clash_world ''example.com'' ''pipeline_auto'' 1
      = (Inl (Failed_to_create_target ErrConstraint),
         snd (GetOrCreateTarget target_clash_world ''example.com'' ''pipeline_auto'' 1))"
    using gt by (metis prod.collapse)
  from C3_conflict_is_returned [of race_world "''example.com''" "''*.example.com''" "[]"
      target_clash_world 1 "''example.com''" "''domain''" "''rival''" "[]" "''pipeline_auto''"
      "[''example.com'']" "[''example.com'']" "''example.com''" race_world
      "Failed_to_create_program ErrConstraint"
      "snd (GetOrCreateProgram ?pw (main_domain ''example.com''))"
      target_clash_world "''example.com''" 1 "Failed_to_create_target ErrConstraint"
      "snd (GetOrCreateTarget target_clash_world ''example.com'' ''pipeline_auto'' 1)" 0]
    hp ht hi hl
  show ?thesis by simp
qed



text \<open>
  C5, as stated, fails: for \<open>https://WWW.Example.com/x\<close> the organisation name is not
  \<open>example\<close>, whether \<open>ExtractDomain\<close> gets the line itself or the domain \<open>main\<close> has cut out
  of it.
\<close>

theorem C5_uppercase_host_is_not_example:
  "ExtractDomain ''https://WWW.Example.com/x'' \<noteq> ''example''
   \<and> ExtractDomain (main_domain ''https://WWW.Example.com/x'') \<noteq> ''example''"
  by (simp add: extract_simps)

text \<open>
  C5, amended. For \<open>https://WWW.Example.com/x\<close> the organisation name is \<open>WWW\<close>: the scheme
  is matched in either case and removed together with everything from the first slash, which
  leaves \<open>WWW.Example.com\<close>; \<open>TrimPrefix\<close> compares bytes, so \<open>WWW.\<close> is not the prefix
  \<open>www.\<close> and nothing is trimmed; the text before the first dot is \<open>WWW\<close>, in the case of the
  input. With the host in lower case, \<open>HTTPS://www.example.com/x\<close>, the name is \<open>example\<close>.
\<close>

theorem C5_uppercase_host_organisation:
  "ExtractDomain ''https://WWW.Example.com/x'' = ''WWW''
   \<and> main_domain ''https://WWW.Example.com/x'' = ''WWW.Example.com''
   \<and> ExtractDomain (main_domain ''https://WWW.Example.com/x'') = ''WWW''
   \<and> anchored_host ''https://WWW.Example.com/x'' = Some ''WWW.Example.com''
   \<and> anchored_host ''HTTPS://WWW.Example.com/x'' = Some ''WWW.Example.com''
   \<and> trim_prefixes ''WWW.Example.com'' = ''WWW.Example.com''
   \<and> ExtractDomain (main_domain ''HTTPS://www.example.com/x'') = ''example''"
  by (simp add: extract_simps)

text \<open>
  C6. When \<open>GetOrCreateProgram\<close> creates a program, on a calm database that has none of that
  name, the new row has the organisation name of the domain it was given and the scope
  \<open>*.\<close> followed by that domain without a leading \<open>www.\<close>, and without any other prefix
  removed: a first line \<open>api.example.com\<close> gives the program \<open>example\<close> with scope
  \<open>*.api.example.com\<close>, a first line \<open>www.example.com\<close> the scope \<open>*.example.com\<close>.
\<close>

theorem C6_scope_strips_only_www:
  assumes "schedule w = []" and "db_file w = Schema_ready"
    and "program_row_of (ExtractDomain domain) w = None"
  shows "(\<exists>row w'. GetOrCreateProgram w domain = (Inr (program_id row), w')
            \<and> programs w' = programs w @ [row]
            \<and> program_name row = ExtractDomain domain
            \<and> program_scope row = Some (''*.'' @ TrimPrefix domain ''www.''))
     \<and> TrimPrefix ''api.example.com'' ''www.'' = ''api.example.com''
     \<and> trim_prefixes ''api.example.com'' = ''example.com''
     \<and> map (\<lambda>r. (program_name r, program_scope r))
           (programs (snd (main (piped [''api.example.com'']) empty_world)))
         = [(''example'', Some ''*.api.example.com'')]
     \<and> map (\<lambda>r. (program_name r, program_scope r))
           (programs (snd (main (piped [''www.example.com'']) empty_world)))
         = [(''example'', Some ''*.example.com'')]"
proof -
  have cw: "calm w" using assms(1,2) by (simp add: calm_def)
  from GetOrCreateProgram_new [OF cw assms(3)]
  have a: "\<exists>row w'. GetOrCreateProgram w domain = (Inr (program_id row), w')
            \<and> programs w' = programs w @ [row]
            \<and> program_name row = ExtractDomain domain
            \<and> program_scope row = Some (''*.'' @ TrimPrefix domain ''www.'')"
    by blast
  have b: "TrimPrefix ''api.example.com'' ''www.'' = ''api.example.com''"
    by (simp add: TrimPrefix_def)
  have c: "trim_prefixes ''api.example.com'' = ''example.com''"
    by (simp add: trim_prefixes_def TrimPrefix_def)
  have d: "map (\<lambda>r. (program_name r, program_scope r))
           (programs (snd (main (piped [''api.example.com'']) empty_world)))
         = [(''example'', Some ''*.api.example.com'')]"
    by code_simp
  have e: "map (\<lambda>r. (program_name r, program_scope r))
           (programs (snd (main (piped [''www.example.com'']) empty_world)))
         = [(''example'', Some ''*.example.com'')]"
    by code_simp
  from a b c d e show ?thesis by blast
qed

text \<open>
  C6 on the empty database with the domain \<open>api.example.com\<close>.
\<close>

theorem C6_witness:
  "schedule empty_world = [] \<and> db_file empty_world = Schema_ready
   \<and> program_row_of (ExtractDomain ''api.example.com'') empty_world = None
   \<and> (\<exists>row w'. GetOrCreateProgram empty_world ''api.example.com'' = (Inr (program_id row), w')
            \<and> programs w' = programs empty_world @ [row]
            \<and> program_name row = ExtractDomain ''api.example.com''
            \<and> program_scope row = Some (''*.'' @ TrimPrefix ''api.example.com'' ''www.''))"
proof -
  have h: "schedule empty_world = []" "db_file empty_world = Schema_ready"
    "program_row_of (ExtractDomain ''api.example.com'') empty_world = None"
    by (simp_all add: empty_world_def program_row_of_def)
  from C6_scope_strips_only_www [OF h] h show ?thesis by blast
qed



text \<open>
  C8. A run of the pipeline leaves every row that was in \<open>programs\<close>, \<open>targets\<close> and
  \<open>recon_data\<close> in its place and unchanged: each table afterwards starts with the table before.
  On a calm statement, a target that is already recorded is answered with the identifier of its
  row and nothing is written; likewise for a program that already exists.
\<close>

theorem C8_existing_rows_are_never_changed:
  assumes "ingest tool lines w = (code, w')"
  shows "prefix (programs w) (programs w') \<and> prefix (targets w) (targets w')
     \<and> prefix (recon_data w) (recon_data w')
     \<and> (next_turn v = Calm \<and> db_file v = Schema_ready \<and> target_row_of pid t v = Some r
          \<longrightarrow> GetOrCreateTarget v t tool pid =
                (Inr (target_id r), v\<lparr>clock := Suc (clock v), schedule := tl (schedule v)\<rparr>))
     \<and> (next_turn v = Calm \<and> db_file v = Schema_ready
          \<and> program_row_of (ExtractDomain d) v = Some p
          \<longrightarrow> GetOrCreateProgram v d =
                (Inr (program_id p),
                 say (Using_existing_program (ExtractDomain d) (program_id p))
                   (v\<lparr>clock := Suc (clock v), schedule := tl (schedule v)\<rparr>)))"
proof -
  from ingest_report [OF assms] have "extends w w'" by blast
  then have "prefix (programs w) (programs w') \<and> prefix (targets w) (targets w')
     \<and> prefix (recon_data w) (recon_data w')"
    by (simp add: extends_def)
  with GetOrCreateTarget_found [of v pid t r tool] GetOrCreateProgram_found [of v d p]
  show ?thesis by blast
qed

text \<open>
  C8 on a second sighting of \<open>example.com\<close>.
\<close>

theorem C8_witness:
  "next_turn once_world = Calm \<and> db_file once_world = Schema_ready
   \<and> target_row_of 1 ''example.com'' once_world = Some (hd (targets once_world))
   \<and> program_row_of (ExtractDomain ''example.com'') once_world = Some (hd (programs once_world))
   \<and> GetOrCreateTarget once_world ''example.com'' ''pipeline_auto'' 1 =
        (Inr (target_id (hd (targets once_world))),
         once_world\<lparr>clock := Suc (clock once_world), schedule := tl (schedule once_world)\<rparr>)
   \<and> prefix (targets once_world) (targets twice_world)"
proof -
  have h: "next_turn once_world = Calm" "db_file once_world = Schema_ready"
    "target_row_of 1 ''example.com'' once_world = Some (hd (targets once_world))"
    "program_row_of (ExtractDomain ''example.com'') once_world = Some (hd (programs once_world))"
    by code_simp+
  have r2: "ingest ''pipeline_auto'' [''example.com''] once_world
      = (fst (ingest ''pipeline_auto'' [''example.com''] once_world), twice_world)"
    by (simp add: twice_world_def)
  from C8_existing_rows_are_never_changed [OF r2, of once_world 1 "''example.com''"
      "hd (targets once_world)" "''example.com''" "hd (programs once_world)"] h
  show ?thesis by simp
qed



text \<open>
  C10, as stated, fails. With a terminal on standard input, the run ends with status 1 when
  the directory of the database cannot be created; and when the file exists without a schema,
  the run ends with status 0 and leaves the file without a schema.
\<close>

theorem C10_exit_depends_on_the_database:
  "\<not> HasStdinData 0x4200190
   \<and> fst (main (terminal\<lparr>mkdir_fails := True\<rparr>) absent_world) = 1
   \<and> db_file (snd (main (terminal\<lparr>mkdir_fails := True\<rparr>) absent_world)) = Absent
   \<and> fst (main terminal (empty_world\<lparr>db_file := No_schema\<rparr>)) = 0
   \<and> db_file (snd (main terminal (empty_world\<lparr>db_file := No_schema\<rparr>))) = No_schema"
  by code_simp

text \<open>
  C10, amended. With a terminal on standard input nothing is ingested: no statement is
  issued and no table gains a row. The status is 0 exactly when \<open>EnsureDBExists\<close> succeeds,
  that is when the directory can be made and either the file exists or the file, the
  connection and the schema can all be created; it is 1 otherwise. On status 0 a file that
  was absent now has its schema, a file that existed is as it was, and the last lines printed
  are "ready" and the two usage hints.
\<close>

theorem C10_terminal_run:
  assumes "stdin_mode env = Some mode" and "\<not> HasStdinData mode"
    and "main env w = (code, w')"
  shows "clock w' = clock w \<and> schedule w' = schedule w
    \<and> set (programs w') \<subseteq> set (programs w) \<and> set (targets w') \<subseteq> set (targets w)
    \<and> set (recon_data w') \<subseteq> set (recon_data w)
    \<and> (code = 0 \<or> code = 1)
    \<and> (code = 0 \<longleftrightarrow>
          \<not> mkdir_fails env
          \<and> (db_file w \<noteq> Absent
               \<or> (\<not> create_fails env \<and> \<not> open_fails env \<and> \<not> ping_fails env
                   \<and> \<not> schema_fails env)))
    \<and> (code = 0 \<longrightarrow>
          db_file w' = (if db_file w = Absent then Schema_ready else db_file w)
          \<and> (\<exists>msgs. console w' = console w @ msgs @ [Database_is_ready, Usage_hint, Usage_hint]))"
proof -
  let ?w1 = "say Ensuring_database_exists (say No_input_provided w)"
  obtain r w2 where e: "EnsureDBExists env ?w1 = (r, w2)"
    by (cases "EnsureDBExists env ?w1")
  have w1: "clock ?w1 = clock w" "schedule ?w1 = schedule w" "programs ?w1 = programs w"
    "targets ?w1 = targets w" "recon_data ?w1 = recon_data w" "db_file ?w1 = db_file w"
    "console ?w1 = console w @ [No_input_provided, Ensuring_database_exists]"
    by (simp_all add: say_def)
  from EnsureDBExists_effect [OF e] obtain msgs where eff:
    "clock w2 = clock ?w1" "schedule w2 = schedule ?w1"
    "set (programs w2) \<subseteq> set (programs ?w1)" "set (targets w2) \<subseteq> set (targets ?w1)"
    "set (recon_data w2) \<subseteq> set (recon_data ?w1)"
    "console w2 = console ?w1 @ msgs"
    "r = None \<longleftrightarrow>
          \<not> mkdir_fails env
          \<and> (db_file ?w1 \<noteq> Absent
               \<or> (\<not> create_fails env \<and> \<not> open_fails env \<and> \<not> ping_fails env
                   \<and> \<not> schema_fails env))"
    "r = None \<longrightarrow> db_file w2 = (if db_file ?w1 = Absent then Schema_ready else db_file ?w1)"
    by blast
  show ?thesis
  proof (cases r)
    case (Some err)
    with main_terminal [OF assms(1,2) e] assms(3)
    have *: "code = 1" "w' = say (Fatal err) w2" by simp_all
    have "clock w' = clock w" "schedule w' = schedule w" "programs w' = programs w2"
      "targets w' = targets w2" "recon_data w' = recon_data w2"
      using eff(1,2) w1(1,2) by (simp_all add: * say_def)
    with eff(3,4,5,7) w1 Some *(1) show ?thesis by simp
  next
    case None
    with main_terminal [OF assms(1,2) e] assms(3)
    have *: "code = 0" "w' = say Usage_hint (say Usage_hint (say Database_is_ready w2))"
      by simp_all
    have f: "clock w' = clock w" "schedule w' = schedule w" "programs w' = programs w2"
      "targets w' = targets w2" "recon_data w' = recon_data w2" "db_file w' = db_file w2"
      using eff(1,2) w1(1,2) by (simp_all add: * say_def)
    have "console w' = console w @ ([No_input_provided, Ensuring_database_exists] @ msgs)
        @ [Database_is_ready, Usage_hint, Usage_hint]"
      using eff(6) w1(7) by (simp add: * say_def)
    then have "\<exists>ms. console w' = console w @ ms @ [Database_is_ready, Usage_hint, Usage_hint]"
      by blast
    with f eff(3,4,5,7,8) w1 None *(1) show ?thesis by simp
  qed
qed

text \<open>
  C10, amended, on a terminal with no database file yet.
\<close>

theorem C10_witness:
  "stdin_mode terminal = Some 0x4200190 \<and> \<not> HasStdinData 0x4200190
   \<and> fst (main terminal absent_world) = 0
   \<and> db_file (snd (main terminal absent_world)) = Schema_ready
   \<and> (\<exists>msgs. console (snd (main terminal absent_world))
                = console absent_world @ msgs @ [Database_is_ready, Usage_hint, Usage_hint])"
proof -
  have m: "stdin_mode terminal = Some 0x4200190" by (simp add: terminal_def piped_def)
  have d: "\<not> HasStdinData 0x4200190" by code_simp
  have c: "fst (main terminal absent_world) = 0" by code_simp
  have a: "db_file absent_world = Absent" by (simp add: absent_world_def)
  have r: "main terminal absent_world = (0, snd (main terminal absent_world))"
    using c by (metis prod.collapse)
  from C10_terminal_run [OF m d r] m d c a show ?thesis by simp
qed

end
